theory Spec2Isabelle
  imports Main "HOL-Library.Sublist"
begin

section \<open>Values of the template filler\<close>

text \<open>
  The script \<^verbatim>\<open>scripts/fill_template.py\<close> is embedded function by function.
  A Python \<^verbatim>\<open>str\<close> is a \<^typ>\<open>string\<close>: one \<^typ>\<open>char\<close> per code point, so the
  model covers the code points below 256. Exceptions are values of \<open>error\<close>; a
  function that can raise returns \<open>error + 'a\<close> with the exception in \<open>Inl\<close>.
\<close>

datatype error =
    KeyError string
  | ValueError string
  | TypeError string
  | IndexError string
  | NameError string
  | EOFError
  | SystemExit int
  | IsADirectoryError "string list"
  | FileNotFoundError "string list"
  | FileExistsError "string list"
  | UnicodeError
  | ExtError string

text \<open>
  The values that flow through the script: \<^verbatim>\<open>None\<close>, strings, lists, instances of
  the classes \<^verbatim>\<open>License\<close>, \<^verbatim>\<open>Authors\<close>, \<^verbatim>\<open>PyVersions\<close> and \<^verbatim>\<open>DecisionOption\<close>,
  bound methods of such instances (\<open>VBound obj method\<close>), and the closures
  \<^verbatim>\<open>ret\<close> that \<^verbatim>\<open>custom_text_hotswap(method)\<close> returns (\<open>VHotswap method\<close>).
  \<open>VExt\<close> stands for every other interpreter value (builtin functions and methods,
  classes, modules); what the interpreter does with those is a parameter, see
  \<open>interp\<close> below.
\<close>

datatype val =
    VNone
  | VStr string
  | VList "val list"
  | VLicense string string
  | VAuthors "string list"
  | VPyVersions string "string list" string
  | VOption DecisionOption
  | VBound val string
  | VHotswap string
  | VExt nat
and DecisionOption = DecisionOption (name: string) (value': val)

text \<open>
  The console: the lines still to be read from standard input, and what has been
  written to standard output, oldest first.
\<close>

record io =
  stdin :: "string list"
  stdout :: "string list"

subsection \<open>Files\<close>

text \<open>
  A path is the list of its components below the project root. A file system maps
  a path to a text file with the text \<^verbatim>\<open>read_text\<close> returns, to a file that does not
  decode as text, or to a directory.
\<close>

type_synonym path = "string list"

datatype node = Text string | Binary "nat list" | Dir

type_synonym files = "path \<Rightarrow> node option"

text \<open>
  What the interpreter does for values and code outside the repository: the builtin
  \<^verbatim>\<open>repr\<close> of a value whose class defines no \<^verbatim>\<open>__str__\<close>, builtin attributes,
  \<^verbatim>\<open>eval\<close> of a snippet that is not a name bound by the script, calls of builtin
  callables, \<^verbatim>\<open>pprint\<close>, the text of \<^verbatim>\<open>type(v)\<close>, and the limit on the number of
  digits \<^verbatim>\<open>int\<close> converts (\<^verbatim>\<open>sys.get_int_max_str_digits()\<close>, 0 where there is
  none). An evaluated snippet and a builtin call run arbitrary code: they may read
  and write the console and the files. What such code does to the interpreter itself
  (rebinding names, changing the dictionary of decisions) is not modelled.
\<close>

record interp =
  ext_repr :: "val \<Rightarrow> string"
  ext_attr :: "val \<Rightarrow> string \<Rightarrow> val option"
  ext_eval :: "(string \<times> val) list \<Rightarrow> (string \<times> val) list \<Rightarrow> string \<Rightarrow> io \<Rightarrow> files
                 \<Rightarrow> (error + val) \<times> io \<times> files"
  ext_call :: "val \<Rightarrow> val list \<Rightarrow> io \<Rightarrow> files \<Rightarrow> (error + val) \<times> io \<times> files"
  ext_callable :: "nat \<Rightarrow> bool"
  ext_truthy :: "nat \<Rightarrow> bool"
  ext_len :: "nat \<Rightarrow> error + nat"
  ext_slice :: "val \<Rightarrow> int option \<Rightarrow> int option \<Rightarrow> error + val"
  ext_pformat :: "(string \<times> val) list \<Rightarrow> string"
  ext_type :: "val \<Rightarrow> string"
  int_max_str_digits :: nat

text \<open>The flags of \<^verbatim>\<open>make_parser\<close>, lines 14 to 18.\<close>

record args =
  del_script :: bool
  backup :: bool

text \<open>
  What the run reads from its surroundings before it asks anything: the working
  directory, the current year, and for each command handed to \<^verbatim>\<open>subprocess.run\<close> its
  return code and its standard output.
\<close>

record env =
  cwd :: "string list"
  year :: nat
  run :: "string \<Rightarrow> int \<times> string"

subsection \<open>Builtins on values\<close>

text \<open>\<^verbatim>\<open>bool(v)\<close>: empty strings and lists and \<^verbatim>\<open>None\<close> are false, a
  \<^verbatim>\<open>DecisionOption\<close> is a 2-tuple and so true, instances of the other classes
  define neither \<^verbatim>\<open>__bool__\<close> nor \<^verbatim>\<open>__len__\<close> and are true.\<close>

fun truthy :: "interp \<Rightarrow> val \<Rightarrow> bool" where
  "truthy I VNone = False"
| "truthy I (VStr s) = (s \<noteq> [])"
| "truthy I (VList vs) = (vs \<noteq> [])"
| "truthy I (VExt n) = ext_truthy I n"
| "truthy I _ = True"

text \<open>\<^verbatim>\<open>sep.join(parts)\<close>.\<close>

fun py_join :: "string \<Rightarrow> string list \<Rightarrow> string" where
  "py_join sep [] = []"
| "py_join sep [p] = p"
| "py_join sep (p # q # ps) = p @ sep @ py_join sep (q # ps)"

text \<open>
  \<^verbatim>\<open>repr(v)\<close>. A string of printable ASCII characters without quote and backslash
  is shown between single quotes, a list as its items between brackets; any other
  string and any other value is the interpreter's.
\<close>

definition plain_char :: "char \<Rightarrow> bool" where
  "plain_char c =
    (let n = (of_char c :: nat) in 32 \<le> n \<and> n \<le> 126 \<and> n \<noteq> 39 \<and> n \<noteq> 92)"

fun py_repr :: "interp \<Rightarrow> val \<Rightarrow> string" where
  "py_repr I VNone = ''None''"
| "py_repr I (VStr s) =
     (if list_all plain_char s then [CHR 0x27] @ s @ [CHR 0x27] else ext_repr I (VStr s))"
| "py_repr I (VList vs) = ''['' @ py_join '', '' (map (py_repr I) vs) @ '']''"
| "py_repr I v = ext_repr I v"

text \<open>\<^verbatim>\<open>str(v)\<close>: only \<^verbatim>\<open>License\<close> defines \<^verbatim>\<open>__str__\<close>; the text of a list is
  its \<^verbatim>\<open>repr\<close>.\<close>

fun py_str :: "interp \<Rightarrow> val \<Rightarrow> string" where
  "py_str I (VStr s) = s"
| "py_str I VNone = ''None''"
| "py_str I (VLicense long short) = long"
| "py_str I (VList vs) = py_repr I (VList vs)"
| "py_str I v = ext_repr I v"

text \<open>\<^verbatim>\<open>len(v)\<close>: a \<^verbatim>\<open>TypeError\<close> for an object without \<^verbatim>\<open>__len__\<close>.\<close>

fun py_len :: "interp \<Rightarrow> val \<Rightarrow> error + nat" where
  "py_len I (VStr s) = Inr (length s)"
| "py_len I (VList vs) = Inr (length vs)"
| "py_len I (VOption d) = Inr 2"
| "py_len I (VExt n) = ext_len I n"
| "py_len I v = Inl (TypeError ''object has no len()'')"

text \<open>The slices \<^verbatim>\<open>xs[:k]\<close> and \<^verbatim>\<open>xs[-k:]\<close> for \<open>k \<ge> 0\<close>; \<^verbatim>\<open>xs[-0:]\<close> is all
  of \<open>xs\<close>. The slice of a \<^verbatim>\<open>DecisionOption\<close> is a plain tuple, a value of the
  interpreter.\<close>

definition slice_to :: "nat \<Rightarrow> 'a list \<Rightarrow> 'a list" where
  "slice_to k xs = take k xs"

definition slice_last :: "nat \<Rightarrow> 'a list \<Rightarrow> 'a list" where
  "slice_last k xs = (if k = 0 then xs else drop (length xs - k) xs)"

fun py_slice_to :: "interp \<Rightarrow> nat \<Rightarrow> val \<Rightarrow> error + val" where
  "py_slice_to I k (VStr s) = Inr (VStr (slice_to k s))"
| "py_slice_to I k (VList vs) = Inr (VList (slice_to k vs))"
| "py_slice_to I k (VOption d) = ext_slice I (VOption d) None (Some (int k))"
| "py_slice_to I k (VExt n) = ext_slice I (VExt n) None (Some (int k))"
| "py_slice_to I k v = Inl (TypeError ''object is not subscriptable'')"

fun py_slice_last :: "interp \<Rightarrow> nat \<Rightarrow> val \<Rightarrow> error + val" where
  "py_slice_last I k (VStr s) = Inr (VStr (slice_last k s))"
| "py_slice_last I k (VList vs) = Inr (VList (slice_last k vs))"
| "py_slice_last I k (VOption d) = ext_slice I (VOption d) (Some (- int k)) None"
| "py_slice_last I k (VExt n) = ext_slice I (VExt n) (Some (- int k)) None"
| "py_slice_last I k v = Inl (TypeError ''object is not subscriptable'')"

section \<open>Decision options\<close>

definition DESCRIPTION_MAX_LEN :: int where
  "DESCRIPTION_MAX_LEN = 20"

text \<open>\<^verbatim>\<open>DecisionOption.describe\<close>, lines 29 to 41.\<close>

definition describe :: "interp \<Rightarrow> DecisionOption \<Rightarrow> error + string" where
  "describe I self =
    (let chars_left = DESCRIPTION_MAX_LEN - int (length (name self)) - 3 in
     if chars_left \<le> 0 then Inr (name self)
     else
       let printable_value =
             (if truthy I (value' self) then value' self
              else VStr (py_repr I (value' self))) in
       case py_len I printable_value of
         Inl e \<Rightarrow> Inl e
       | Inr n \<Rightarrow>
           if int n \<le> chars_left
           then Inr (name self @ '' ('' @ py_str I printable_value @ '')'')
           else
             let chars_left = chars_left - 2 in
             if chars_left \<le> 2 then Inr (name self)
             else
               let side_len = nat (chars_left div 2) in
               case py_slice_to I side_len printable_value of
                 Inl e \<Rightarrow> Inl e
               | Inr a \<Rightarrow>
                   (case py_slice_last I side_len printable_value of
                      Inl e \<Rightarrow> Inl e
                    | Inr b \<Rightarrow>
                        Inr (name self @ '' ('' @ py_str I a @ ''..'' @ py_str I b @ '')'')))"

section \<open>Strings, integers and the console\<close>

text \<open>The characters \<^verbatim>\<open>str.isspace\<close>, \<^verbatim>\<open>str.strip\<close> and the pattern \<^verbatim>\<open>\s\<close>
  treat as white space, among the code points below 256.\<close>

definition is_space :: "char \<Rightarrow> bool" where
  "is_space c =
    (let n = (of_char c :: nat)
     in (9 \<le> n \<and> n \<le> 13) \<or> (28 \<le> n \<and> n \<le> 32) \<or> n = 133 \<or> n = 160)"

definition is_digit :: "char \<Rightarrow> bool" where
  "is_digit c = (let n = (of_char c :: nat) in 48 \<le> n \<and> n \<le> 57)"

definition is_alpha :: "char \<Rightarrow> bool" where
  "is_alpha c =
    (let n = (of_char c :: nat) in (65 \<le> n \<and> n \<le> 90) \<or> (97 \<le> n \<and> n \<le> 122))"

definition digit_val :: "char \<Rightarrow> nat" where
  "digit_val c = of_char c - 48"

definition digit_char :: "nat \<Rightarrow> char" where
  "digit_char d = char_of (48 + d)"

text \<open>\<^verbatim>\<open>s.strip()\<close>.\<close>

definition strip :: "string \<Rightarrow> string" where
  "strip s = rev (dropWhile is_space (rev (dropWhile is_space s)))"

text \<open>\<^verbatim>\<open>s.split(',')\<close>: every comma separates, so the result has one element more
  than \<open>s\<close> has commas.\<close>

fun split_on :: "char \<Rightarrow> string \<Rightarrow> string list" where
  "split_on sep [] = [[]]"
| "split_on sep (c # cs) =
     (if c = sep then [] # split_on sep cs
      else (case split_on sep cs of
              [] \<Rightarrow> [[c]]
            | p # ps \<Rightarrow> (c # p) # ps))"

text \<open>\<^verbatim>\<open>x.partition('!')\<close>: the text before the first \<^verbatim>\<open>!\<close>, the separator, the
  text after it; without a \<^verbatim>\<open>!\<close> it is \<^verbatim>\<open>(x, '', '')\<close>.\<close>

definition partition_bang :: "string \<Rightarrow> string \<times> string \<times> string" where
  "partition_bang x =
    (case dropWhile (\<lambda>c. c \<noteq> CHR ''!'') x of
       [] \<Rightarrow> (x, [], [])
     | c # after \<Rightarrow> (takeWhile (\<lambda>c. c \<noteq> CHR ''!'') x, [c], after))"

text \<open>\<^verbatim>\<open>str(n)\<close> for a natural number \<open>n\<close>.\<close>

fun show_nat :: "nat \<Rightarrow> string" where
  "show_nat n =
    (if n < 10 then [digit_char n] else show_nat (n div 10) @ [digit_char (n mod 10)])"

declare show_nat.simps [simp del]

text \<open>
  \<^verbatim>\<open>int(s)\<close> in base ten. The white space \<^verbatim>\<open>int\<close> drops around the number is
  narrower than that of \<^verbatim>\<open>str.strip\<close>: tab to carriage return and the space, and
  beyond ASCII the code points 133 and 160; the separators 28 to 31 are not dropped.
  One sign is allowed, then decimal digits follow, with single underscores allowed
  between two digits. When the interpreter has a limit on the number of digits, a text
  with more digits is refused. \<open>None\<close> is the \<^verbatim>\<open>ValueError\<close>.
\<close>

definition is_int_space :: "char \<Rightarrow> bool" where
  "is_int_space c =
    (let n = (of_char c :: nat) in (9 \<le> n \<and> n \<le> 13) \<or> n = 32 \<or> n = 133 \<or> n = 160)"

definition int_strip :: "string \<Rightarrow> string" where
  "int_strip s = rev (dropWhile is_int_space (rev (dropWhile is_int_space s)))"

fun digits_from :: "nat \<Rightarrow> string \<Rightarrow> nat option" where
  "digits_from acc [] = Some acc"
| "digits_from acc [c] = (if is_digit c then Some (10 * acc + digit_val c) else None)"
| "digits_from acc (c # d # cs) =
     (if is_digit c then digits_from (10 * acc + digit_val c) (d # cs)
      else if c = CHR ''_'' \<and> is_digit d then digits_from (10 * acc + digit_val d) cs
      else None)"

definition digits :: "string \<Rightarrow> nat option" where
  "digits s = (case s of [] \<Rightarrow> None | c # cs \<Rightarrow> if is_digit c then digits_from 0 s else None)"

definition too_many_digits :: "interp \<Rightarrow> string \<Rightarrow> bool" where
  "too_many_digits I s =
    (let n = length (filter is_digit s)
     in 0 < int_max_str_digits I \<and> int_max_str_digits I < n \<and> 640 < n)"

definition py_int :: "interp \<Rightarrow> string \<Rightarrow> int option" where
  "py_int I s =
    (if too_many_digits I s then None
     else
       case int_strip s of
         [] \<Rightarrow> None
       | c # cs \<Rightarrow>
           if c = CHR ''-'' then map_option (\<lambda>n. - int n) (digits cs)
           else if c = CHR ''+'' then map_option int (digits cs)
           else map_option int (digits (c # cs)))"

text \<open>\<^verbatim>\<open>xs[i]\<close> for a Python integer \<open>i\<close>: a negative index counts from the end,
  an index out of range raises \<^verbatim>\<open>IndexError\<close>.\<close>

definition py_index :: "'a list \<Rightarrow> int \<Rightarrow> error + 'a" where
  "py_index xs i =
    (if 0 \<le> i \<and> i < int (length xs) then Inr (xs ! nat i)
     else if i < 0 \<and> - int (length xs) \<le> i then Inr (xs ! nat (int (length xs) + i))
     else Inl (IndexError ''list index out of range''))"

text \<open>\<^verbatim>\<open>print(text)\<close> and \<^verbatim>\<open>input(prompt)\<close>; \<^verbatim>\<open>input\<close> raises \<^verbatim>\<open>EOFError\<close> when
  standard input is exhausted.\<close>

definition print :: "string \<Rightarrow> io \<Rightarrow> io" where
  "print text w = w\<lparr>stdout := stdout w @ [text @ [CHR 0x0A]]\<rparr>"

definition input :: "string \<Rightarrow> io \<Rightarrow> (error + string) \<times> io" where
  "input prompt w =
    (case stdin w of
       [] \<Rightarrow> (Inl EOFError, w\<lparr>stdout := stdout w @ [prompt]\<rparr>)
     | line # rest \<Rightarrow> (Inr line, w\<lparr>stdin := rest, stdout := stdout w @ [prompt]\<rparr>))"

section \<open>Patterns\<close>

text \<open>
  The patterns the script compiles use character classes, concatenation, \<^verbatim>\<open>*\<close>,
  \<^verbatim>\<open>+\<close>, \<^verbatim>\<open>{4}\<close> and groups. \<^verbatim>\<open>Pattern.fullmatch\<close> succeeds exactly when the
  whole string is in the language of the pattern; it is decided here by derivatives.
\<close>

datatype rexp =
    Zero
  | One
  | Class "char \<Rightarrow> bool"
  | Seq rexp rexp
  | Alt rexp rexp
  | Star rexp

fun nullable :: "rexp \<Rightarrow> bool" where
  "nullable Zero = False"
| "nullable One = True"
| "nullable (Class P) = False"
| "nullable (Seq r s) = (nullable r \<and> nullable s)"
| "nullable (Alt r s) = (nullable r \<or> nullable s)"
| "nullable (Star r) = True"

fun deriv :: "char \<Rightarrow> rexp \<Rightarrow> rexp" where
  "deriv c Zero = Zero"
| "deriv c One = Zero"
| "deriv c (Class P) = (if P c then One else Zero)"
| "deriv c (Seq r s) =
     (if nullable r then Alt (Seq (deriv c r) s) (deriv c s) else Seq (deriv c r) s)"
| "deriv c (Alt r s) = Alt (deriv c r) (deriv c s)"
| "deriv c (Star r) = Seq (deriv c r) (Star r)"

definition fullmatch :: "rexp \<Rightarrow> string \<Rightarrow> bool" where
  "fullmatch r s = nullable (foldl (\<lambda>r c. deriv c r) r s)"

definition Plus :: "rexp \<Rightarrow> rexp" where
  "Plus r = Seq r (Star r)"

definition Lit :: "char \<Rightarrow> rexp" where
  "Lit c = Class (\<lambda>x. x = c)"

text \<open>\<^verbatim>\<open>.\<close> matches every character but the newline.\<close>

definition Dot :: rexp where
  "Dot = Class (\<lambda>x. x \<noteq> CHR 0x0A)"

subsection \<open>The language of a pattern\<close>

text \<open>The strings a pattern matches in full, as sets; the matcher above is proved to
  decide membership.\<close>

inductive_set star :: "string set \<Rightarrow> string set" for A :: "string set" where
  star_empty: "[] \<in> star A"
| star_step: "u \<in> A \<Longrightarrow> v \<in> star A \<Longrightarrow> u @ v \<in> star A"

fun lang :: "rexp \<Rightarrow> string set" where
  "lang Zero = {}"
| "lang One = {[]}"
| "lang (Class P) = {[c] | c. P c}"
| "lang (Seq r s) = {u @ v | u v. u \<in> lang r \<and> v \<in> lang s}"
| "lang (Alt r s) = lang r \<union> lang s"
| "lang (Star r) = star (lang r)"

section \<open>Decision resolvers\<close>

text \<open>
  The classes \<^verbatim>\<open>DecisionResolver\<close>, \<^verbatim>\<open>RegexDecisionValidator\<close>, \<^verbatim>\<open>ConstResolver\<close>
  and \<^verbatim>\<open>AuthorsResolver\<close>, lines 44 to 122. An instance is its class, its pattern,
  the description of the pattern and its options. The options are a Python set; the
  list holds them in the order in which \<^verbatim>\<open>list(self.options())\<close> yields them.
\<close>

datatype resolver_class = ConstResolver | AuthorsResolver

record resolver =
  cls :: resolver_class
  pattern :: "rexp option"
  pattern_description :: string
  options :: "DecisionOption list"

text \<open>\<^verbatim>\<open>ConstResolver.add_option\<close>: adding to the set.\<close>

definition add_option :: "resolver \<Rightarrow> DecisionOption \<Rightarrow> resolver" where
  "add_option self option = self\<lparr>options := List.insert option (options self)\<rparr>"

text \<open>The truth value of \<^verbatim>\<open>self.custom_option\<close>: the constructor of
  \<^verbatim>\<open>RegexDecisionValidator\<close> sets it to \<^verbatim>\<open>None\<close> when there is no pattern.\<close>

definition has_custom_option :: "resolver \<Rightarrow> bool" where
  "has_custom_option self = (pattern self \<noteq> None)"

text \<open>\<^verbatim>\<open>RegexDecisionValidator.custom_option\<close>, lines 87 to 90.\<close>

definition regex_custom_option :: "resolver \<Rightarrow> string \<Rightarrow> error + string" where
  "regex_custom_option self x =
    (case pattern self of
       None \<Rightarrow> Inl (TypeError ''NoneType object is not callable'')
     | Some p \<Rightarrow>
         if \<not> fullmatch p x then Inl (ValueError (''must match '' @ pattern_description self))
         else Inr x)"

text \<open>\<^verbatim>\<open>Authors.__init__\<close>, line 141.\<close>

definition Authors :: "string \<Rightarrow> val" where
  "Authors x = VAuthors (map strip (split_on CHR '','' x))"

text \<open>\<^verbatim>\<open>custom_option\<close> as the class of \<open>self\<close> resolves it; \<^verbatim>\<open>AuthorsResolver\<close>
  overrides it at lines 121 and 122.\<close>

definition custom_option :: "resolver \<Rightarrow> string \<Rightarrow> error + val" where
  "custom_option self x =
    (case cls self of
       ConstResolver \<Rightarrow> map_sum id VStr (regex_custom_option self x)
     | AuthorsResolver \<Rightarrow> map_sum id Authors (regex_custom_option self x))"

text \<open>The text of an exception, as \<^verbatim>\<open>print(e)\<close> shows it.\<close>

fun error_text :: "error \<Rightarrow> string" where
  "error_text (KeyError s) = s"
| "error_text (ValueError s) = s"
| "error_text (TypeError s) = s"
| "error_text (IndexError s) = s"
| "error_text (NameError s) = s"
| "error_text (ExtError s) = s"
| "error_text e = []"

text \<open>The menu that \<^verbatim>\<open>make\<close> builds at lines 55 to 59.\<close>

definition menu :: "interp \<Rightarrow> resolver \<Rightarrow> string \<Rightarrow> string list" where
  "menu I self nm =
    [''enter value for '' @ nm @ '':'']
    @ map (\<lambda>(i, option). show_nat i @ '': '' @ name option @ '' (''
                            @ py_str I (value' option) @ '')'')
        (zip [1 ..< Suc (length (options self))] (options self))
    @ (if has_custom_option self then [''t: custom text''] else [])"

text \<open>\<^verbatim>\<open>DecisionResolver.make\<close>, lines 53 to 76. The retry at line 76 is the
  recursive call; each round reads at least one line, and \<^verbatim>\<open>input\<close> raises at the
  end of the input.\<close>

function make :: "interp \<Rightarrow> resolver \<Rightarrow> string \<Rightarrow> io \<Rightarrow> (error + val) \<times> io" where
  "make I self nm w =
    (case input (py_join [CHR 0x0A] (menu I self nm) @ [CHR 0x0A]) w of
       (Inl e, w1) \<Rightarrow> (Inl e, w1)
     | (Inr response, w1) \<Rightarrow>
         (case (case py_int I response of
                  None \<Rightarrow> None
                | Some response_int \<Rightarrow>
                    if response_int < int (length (options self))
                    then Some (py_index (options self) response_int)
                    else None) of
            Some (Inl e) \<Rightarrow> (Inl e, w1)
          | Some (Inr option) \<Rightarrow> (Inr (VOption option), w1)
          | None \<Rightarrow>
              if has_custom_option self \<and> response = ''t''
              then (case input (''enter custom text:'' @ [CHR 0x0A]) w1 of
                      (Inl e, w2) \<Rightarrow> (Inl e, w2)
                    | (Inr custom, w2) \<Rightarrow>
                        (case custom_option self custom of
                           Inr v \<Rightarrow> (Inr v, w2)
                         | Inl e \<Rightarrow>
                             make I self nm
                               (print (''could not parse '' @ response)
                                  (print (error_text e) w2))))
              else make I self nm (print (''could not parse '' @ response) w1)))"
  by pat_completeness auto
termination
  by (relation "measure (\<lambda>(I, self, nm, w). length (stdin w))")
     (auto simp: input_def print_def split: list.splits)

declare make.simps [simp del]

section \<open>The decisions\<close>

text \<open>The patterns compiled at lines 113, 118 and 191 to 198.\<close>

definition word_char :: "char \<Rightarrow> bool" where
  "word_char c = (is_alpha c \<or> is_digit c \<or> c = CHR ''_'')"

definition name_char :: "char \<Rightarrow> bool" where
  "name_char c = (is_alpha c \<or> is_space c \<or> is_digit c \<or> c = CHR ''_'')"

definition mail_char :: "char \<Rightarrow> bool" where
  "mail_char c = (is_alpha c \<or> c = CHR ''.'' \<or> c = CHR ''_'' \<or> is_digit c)"

text \<open>\<^verbatim>\<open>[a-zA-Z][a-zA-Z0-9_]*\<close>\<close>

definition package_pattern :: rexp where
  "package_pattern = Seq (Class is_alpha) (Star (Class word_char))"

text \<open>\<^verbatim>\<open>[0-9]{4}\<close>\<close>

definition year_pattern :: rexp where
  "year_pattern =
    Seq (Class is_digit) (Seq (Class is_digit) (Seq (Class is_digit) (Class is_digit)))"

text \<open>\<^verbatim>\<open>.*\<close>\<close>

definition any_pattern :: rexp where
  "any_pattern = Star Dot"

text \<open>\<^verbatim>\<open>[a-zA-Z\s0-9_]+\s<[a-zA-Z._0-9]+@[a-zA-Z._0-9]+>\<close>\<close>

definition author_pattern :: rexp where
  "author_pattern =
    Seq (Plus (Class name_char))
     (Seq (Class is_space)
       (Seq (Lit CHR ''<'')
         (Seq (Plus (Class mail_char))
           (Seq (Lit CHR ''@'')
             (Seq (Plus (Class mail_char)) (Lit CHR ''>''))))))"

text \<open>\<^verbatim>\<open>author_pattern + "(,\s*" + author_pattern + ")*"\<close>\<close>

definition authors_pattern :: rexp where
  "authors_pattern =
    Seq author_pattern
      (Star (Seq (Lit CHR '','') (Seq (Star (Class is_space)) author_pattern)))"

text \<open>The option tables, lines 160 to 189.\<close>

definition license_options :: "DecisionOption list" where
  \<open>license_options =
    [DecisionOption ''blank'' (VLicense [] []),
     DecisionOption ''proprietary''
       (VLicense ''Copyright (c) {year}, {authors}'' ''Proprietary''),
     DecisionOption ''MIT''
       (VLicense
         (''Copyright (c) {year}, {authors}''
       @ [CHR 0x0A, CHR 0x0A]
       @ ''Permission is hereby granted, free of charge, to any person obtaining ''
       @ ''a copy of this software and associated documentation files (the ''
       @ ''"Software"), to deal in the Software without restriction, including ''
       @ ''without limitation the rights to use, copy, modify, merge, publish, ''
       @ ''distribute, sublicense, and/or sell copies of the Software, and to ''
       @ ''permit persons to whom the Software is furnished to do so, subject to ''
       @ ''the following conditions:''
       @ [CHR 0x0A, CHR 0x0A]
       @ ''The above copyright notice and this permission notice (including the ''
       @ ''next paragraph) shall be included in all copies or substantial ''
       @ ''portions of the Software.''
       @ [CHR 0x0A, CHR 0x0A]
       @ ''THE SOFTWARE IS PROVIDED "AS IS", WITHOUT WARRANTY OF ANY KIND, ''
       @ ''EXPRESS OR IMPLIED, INCLUDING BUT NOT LIMITED TO THE WARRANTIES OF ''
       @ ''MERCHANTABILITY, FITNESS FOR A PARTICULAR PURPOSE AND NONINFRINGEMENT. ''
       @ ''IN NO EVENT SHALL THE AUTHORS OR COPYRIGHT HOLDERS BE LIABLE FOR ANY ''
       @ ''CLAIM, DAMAGES OR OTHER LIABILITY, WHETHER IN AN ACTION OF CONTRACT, ''
       @ ''TORT OR OTHERWISE, ARISING FROM, OUT OF OR IN CONNECTION WITH THE ''
       @ ''SOFTWARE OR THE USE OR OTHER DEALINGS IN THE SOFTWARE.'')
         ''MIT'')]\<close>

definition py_version_options :: "DecisionOption list" where
  "py_version_options =
    [DecisionOption ''^3.6'' (VPyVersions ''^3.6'' [''3.6'', ''3.7'', ''3.8'', ''3.9''] ''3.7''),
     DecisionOption ''^3.7'' (VPyVersions ''^3.7'' [''3.7'', ''3.8'', ''3.9''] ''3.8''),
     DecisionOption ''^3.8'' (VPyVersions ''^3.8'' [''3.8'', ''3.9''] ''3.8''),
     DecisionOption ''^3.9'' (VPyVersions ''^3.9'' [''3.9''] ''3.9'')]"

definition platform_options :: "DecisionOption list" where
  "platform_options =
    [DecisionOption ''All Majors'' (VStr ''ubuntu-latest, macos-latest, windows-latest''),
     DecisionOption ''No Windows'' (VStr ''ubuntu-latest, macos-latest''),
     DecisionOption ''No Macos'' (VStr ''ubuntu-latest, windows-latest''),
     DecisionOption ''No Ubuntu'' (VStr ''macos-latest, windows-latest''),
     DecisionOption ''Windows'' (VStr ''windows-latest''),
     DecisionOption ''Macos'' (VStr ''macos-latest''),
     DecisionOption ''Ubuntu'' (VStr ''ubuntu-latest'')]"

definition initial_version_options :: "DecisionOption list" where
  "initial_version_options =
    [DecisionOption ''0.0.1.dev'' (VStr ''0.0.1.dev''),
     DecisionOption ''0.1.0.dev'' (VStr ''0.1.0.dev''),
     DecisionOption ''1.0.0.dev'' (VStr ''1.0.0.dev'')]"

text \<open>The constructor of \<^verbatim>\<open>ConstResolver\<close> and that of \<^verbatim>\<open>AuthorsResolver\<close>.\<close>

definition mk_ConstResolver :: "DecisionOption list \<Rightarrow> rexp option \<Rightarrow> resolver" where
  "mk_ConstResolver opts pat =
    \<lparr>cls = ConstResolver, pattern = pat, pattern_description = ''pattern'',
     options = remdups opts\<rparr>"

definition mk_AuthorsResolver :: resolver where
  "mk_AuthorsResolver =
    \<lparr>cls = AuthorsResolver, pattern = Some authors_pattern,
     pattern_description = ''name <email>[, name <email>...]'', options = []\<rparr>"

text \<open>The table \<^verbatim>\<open>decisions\<close>, lines 190 to 199, in the order of the dictionary.\<close>

definition decisions :: "(string \<times> resolver) list" where
  "decisions =
    [(''package'', mk_ConstResolver [] (Some package_pattern)),
     (''authors'', mk_AuthorsResolver),
     (''year'', mk_ConstResolver [] (Some year_pattern)),
     (''repo_link'', mk_ConstResolver [] (Some any_pattern)),
     (''license'', mk_ConstResolver license_options (Some any_pattern)),
     (''py_versions'', mk_ConstResolver py_version_options (Some any_pattern)),
     (''os_platforms'', mk_ConstResolver platform_options (Some any_pattern)),
     (''inital_version'', mk_ConstResolver initial_version_options (Some any_pattern))]"

section \<open>The placeholder evaluator\<close>

text \<open>
  \<^verbatim>\<open>getattr(v, a, None)\<close>: the attributes the classes of the script define; every
  other attribute is the interpreter's. A missing attribute gives \<^verbatim>\<open>None\<close>.
\<close>

fun own_attr :: "val \<Rightarrow> string \<Rightarrow> val option" where
  "own_attr (VLicense long short) a =
     (if a = ''long'' then Some (VStr long)
      else if a = ''short'' then Some (VStr short)
      else if a = ''format_map'' then Some (VBound (VLicense long short) a)
      else None)"
| "own_attr (VAuthors parts) a =
     (if a = ''parts'' then Some (VList (map VStr parts))
      else if a = ''split'' then Some (VBound (VAuthors parts) a)
      else None)"
| "own_attr (VPyVersions semver minors preferred) a =
     (if a = ''semver'' then Some (VStr semver)
      else if a = ''_minors'' then Some (VList (map VStr minors))
      else if a = ''preferred'' then Some (VStr preferred)
      else if a = ''minors'' then Some (VBound (VPyVersions semver minors preferred) a)
      else None)"
| "own_attr (VOption d) a =
     (if a = ''name'' then Some (VStr (name d))
      else if a = ''value'' then Some (value' d)
      else if a = ''describe'' then Some (VBound (VOption d) a)
      else None)"
| "own_attr v a = None"

definition getattr_default :: "interp \<Rightarrow> val \<Rightarrow> string \<Rightarrow> val" where
  "getattr_default I v a =
    (case own_attr v a of
       Some x \<Rightarrow> x
     | None \<Rightarrow> (case ext_attr I v a of Some x \<Rightarrow> x | None \<Rightarrow> VNone))"

text \<open>\<^verbatim>\<open>callable(v)\<close>.\<close>

fun callable :: "interp \<Rightarrow> val \<Rightarrow> bool" where
  "callable I (VBound obj m) = True"
| "callable I (VHotswap m) = True"
| "callable I (VExt n) = ext_callable I n"
| "callable I v = False"

text \<open>The text of \<^verbatim>\<open>type(v)\<close>, the argument of the \<^verbatim>\<open>TypeError\<close> at line 299.\<close>

fun type_text :: "interp \<Rightarrow> val \<Rightarrow> string" where
  "type_text I VNone = ''<class '' @ [CHR 0x27] @ ''NoneType'' @ [CHR 0x27] @ ''>''"
| "type_text I (VStr s) = ''<class '' @ [CHR 0x27] @ ''str'' @ [CHR 0x27] @ ''>''"
| "type_text I (VList vs) = ''<class '' @ [CHR 0x27] @ ''list'' @ [CHR 0x27] @ ''>''"
| "type_text I v = ext_type I v"

text \<open>
  Calling a value with positional arguments, on the console and the files. The closure
  \<^verbatim>\<open>ret\<close> of \<^verbatim>\<open>custom_text_hotswap\<close> (lines 297 to 300) raises \<^verbatim>\<open>TypeError\<close> unless
  its argument is a string, and otherwise asks the user. \<^verbatim>\<open>Authors.split\<close>,
  \<^verbatim>\<open>PyVersions.minors\<close> and \<^verbatim>\<open>DecisionOption.describe\<close> take no argument.
  Everything else is the interpreter's.
\<close>

fun call ::
  "interp \<Rightarrow> val \<Rightarrow> val list \<Rightarrow> io \<Rightarrow> files \<Rightarrow> (error + val) \<times> io \<times> files" where
  "call I (VHotswap method) [x] w fs =
     (case x of
        VStr s \<Rightarrow>
          (case input (''enter result for custom text '' @ s @ '' with method '' @ method
                       @ '':'' @ [CHR 0x0A]) w of
             (Inl e, w1) \<Rightarrow> (Inl e, w1, fs)
           | (Inr line, w1) \<Rightarrow> (Inr (VStr line), w1, fs))
      | _ \<Rightarrow> (Inl (TypeError (type_text I x)), w, fs))"
| "call I (VHotswap method) args w fs =
     (Inl (TypeError ''ret() takes exactly one positional argument''), w, fs)"
| "call I (VBound (VAuthors parts) m) args w fs =
     (if m = ''split'' \<and> args = [] then (Inr (VList (map VStr parts)), w, fs)
      else ext_call I (VBound (VAuthors parts) m) args w fs)"
| "call I (VBound (VPyVersions semver minors preferred) m) args w fs =
     (if m = ''minors'' \<and> args = [] then (Inr (VStr (py_join '', '' minors)), w, fs)
      else ext_call I (VBound (VPyVersions semver minors preferred) m) args w fs)"
| "call I (VBound (VOption d) m) args w fs =
     (if m = ''describe'' \<and> args = [] then (map_sum id VStr (describe I d), w, fs)
      else ext_call I (VBound (VOption d) m) args w fs)"
| "call I (VBound obj m) args w fs = ext_call I (VBound obj m) args w fs"
| "call I (VExt n) args w fs = ext_call I (VExt n) args w fs"
| "call I v args w fs = (Inl (TypeError ''object is not callable''), w, fs)"

text \<open>
  The names \<^verbatim>\<open>eval\<close> finds without the interpreter's help: the local variables of
  \<^verbatim>\<open>inner\<close> that hold strings or decision values, and the module's globals that hold
  such values: the three closures of lines 305 to 307, the pattern text of line 113
  and the option tables.
\<close>

definition module_globals :: "(string \<times> val) list" where
  "module_globals =
    [(''preferred'', VHotswap ''preferred''),
     (''split'', VHotswap ''short''),
     (''semver'', VHotswap ''semver''),
     (''author_pattern'',
        VStr (''[a-zA-Z'' @ [CHR 0x5C] @ ''s0-9_]+'' @ [CHR 0x5C]
              @ ''s<[a-zA-Z._0-9]+@[a-zA-Z._0-9]+>'')),
     (''license_options'', VList (map VOption license_options)),
     (''py_version_options'', VList (map VOption py_version_options)),
     (''platform_options'', VList (map VOption platform_options)),
     (''initial_version_options'', VList (map VOption initial_version_options))]"

definition py_eval ::
  "interp \<Rightarrow> (string \<times> val) list \<Rightarrow> (string \<times> val) list \<Rightarrow> string \<Rightarrow> io \<Rightarrow> files
     \<Rightarrow> (error + val) \<times> io \<times> files" where
  "py_eval I md locals code w fs =
    (case map_of locals code of
       Some v \<Rightarrow> (Inr v, w, fs)
     | None \<Rightarrow>
         (case map_of module_globals code of
            Some v \<Rightarrow> (Inr v, w, fs)
          | None \<Rightarrow> ext_eval I md locals code w fs))"

lemma partition_bang_shorter:
  assumes "partition_bang x = (first, sep, second)" and "second \<noteq> []"
  shows "length first < length x"
proof -
  from assms obtain c where d: "dropWhile (\<lambda>c. c \<noteq> CHR ''!'') x = c # second"
    and f: "first = takeWhile (\<lambda>c. c \<noteq> CHR ''!'') x"
    by (auto simp: partition_bang_def split: list.splits)
  have "length x = length (takeWhile (\<lambda>c. c \<noteq> CHR ''!'') x)
                   + length (dropWhile (\<lambda>c. c \<noteq> CHR ''!'') x)"
    by (metis length_append takeWhile_dropWhile_id)
  with d f show ?thesis by simp
qed

text \<open>
  The function \<^verbatim>\<open>inner\<close> of \<^verbatim>\<open>repl\<close>, lines 249 to 260, over the dictionary
  \<^verbatim>\<open>made_decisions\<close>; and \<^verbatim>\<open>repl\<close>, line 262, on the text of group 1 of the match.
\<close>

function inner ::
  "interp \<Rightarrow> (string \<times> val) list \<Rightarrow> string \<Rightarrow> io \<Rightarrow> files
     \<Rightarrow> (error + val) \<times> io \<times> files" where
  "inner I made_decisions x w fs =
    (case partition_bang x of
       (first, sep, second) \<Rightarrow>
         if second = [] then
           (case map_of made_decisions first of
              None \<Rightarrow> (Inl (KeyError first), w, fs)
            | Some v \<Rightarrow> (Inr v, w, fs))
         else
           (case inner I made_decisions first w fs of
              (Inl e, w1, fs1) \<Rightarrow> (Inl e, w1, fs1)
            | (Inr evaled_first, w1, fs1) \<Rightarrow>
                let evaled_second = getattr_default I evaled_first second in
                (case (if evaled_second = VNone
                       then (case py_eval I made_decisions
                                    [(''x'', VStr x), (''first'', VStr first), (''_'', VStr sep),
                                     (''second'', VStr second), (''evaled_first'', evaled_first),
                                     (''evaled_second'', evaled_second)]
                                    second w1 fs1 of
                               (Inl e, w2, fs2) \<Rightarrow> (Inl e, w2, fs2)
                             | (Inr second_callback, w2, fs2) \<Rightarrow>
                                 call I second_callback [evaled_second] w2 fs2)
                       else (Inr evaled_second, w1, fs1)) of
                   (Inl e, w3, fs3) \<Rightarrow> (Inl e, w3, fs3)
                 | (Inr evaled_second, w3, fs3) \<Rightarrow>
                     if callable I evaled_second then call I evaled_second [] w3 fs3
                     else (Inr evaled_second, w3, fs3))))"
  by pat_completeness auto
termination
  by (relation "measure (\<lambda>(I, md, x, w, fs). length x)")
     (auto dest: partition_bang_shorter[OF sym])

declare inner.simps [simp del]

definition repl ::
  "interp \<Rightarrow> (string \<times> val) list \<Rightarrow> string \<Rightarrow> io \<Rightarrow> files
     \<Rightarrow> (error + string) \<times> io \<times> files" where
  "repl I made_decisions group1 w fs =
    (case inner I made_decisions group1 w fs of
       (Inl e, w1, fs1) \<Rightarrow> (Inl e, w1, fs1)
     | (Inr v, w1, fs1) \<Rightarrow> (Inr (py_str I v), w1, fs1))"

section \<open>Paths and files\<close>

text \<open>\<^verbatim>\<open>Path.name\<close>, \<^verbatim>\<open>Path.suffix\<close> and \<^verbatim>\<open>Path.with_suffix\<close> of \<^verbatim>\<open>pathlib\<close>: the
  suffix starts at the last dot of the name, unless that dot is the first or the last
  character.\<close>

definition path_name :: "path \<Rightarrow> string" where
  "path_name p = (if p = [] then [] else last p)"

definition rfind_dot :: "string \<Rightarrow> nat option" where
  "rfind_dot nm =
    (let k = length (takeWhile (\<lambda>c. c \<noteq> CHR ''.'') (rev nm))
     in if k = length nm then None else Some (length nm - 1 - k))"

definition name_suffix :: "string \<Rightarrow> string" where
  "name_suffix nm =
    (case rfind_dot nm of
       None \<Rightarrow> []
     | Some i \<Rightarrow> if 0 < i \<and> i + 1 < length nm then drop i nm else [])"

definition suffix :: "path \<Rightarrow> string" where
  "suffix p = name_suffix (path_name p)"

definition with_suffix :: "path \<Rightarrow> string \<Rightarrow> error + path" where
  "with_suffix p sfx =
    (let nm = path_name p in
     if nm = [] then Inl (ValueError ''path has an empty name'')
     else
       let old_suffix = suffix p in
       Inr (butlast p @ [take (length nm - length old_suffix) nm @ sfx]))"

text \<open>\<^verbatim>\<open>Path.read_text\<close> and \<^verbatim>\<open>Path.write_text\<close>.\<close>

definition read_text :: "files \<Rightarrow> path \<Rightarrow> error + string" where
  "read_text fs p =
    (case fs p of
       None \<Rightarrow> Inl (FileNotFoundError p)
     | Some Dir \<Rightarrow> Inl (IsADirectoryError p)
     | Some (Binary bytes) \<Rightarrow> Inl UnicodeError
     | Some (Text t) \<Rightarrow> Inr t)"

definition write_text :: "files \<Rightarrow> path \<Rightarrow> string \<Rightarrow> error + files" where
  "write_text fs p t =
    (case fs p of
       Some Dir \<Rightarrow> Inl (IsADirectoryError p)
     | _ \<Rightarrow> Inr (fs(p \<mapsto> Text t)))"

text \<open>\<^verbatim>\<open>Path.mkdir\<close> without \<^verbatim>\<open>exist_ok\<close>.\<close>

definition mkdir :: "files \<Rightarrow> path \<Rightarrow> error + files" where
  "mkdir fs p = (if fs p \<noteq> None then Inl (FileExistsError p) else Inr (fs(p \<mapsto> Dir)))"

section \<open>The rewrite pass\<close>

text \<open>
  The pattern of line 246, \<^verbatim>\<open><\$([^$]*)\$>\<close>. \<open>find_token\<close> is its leftmost match
  in a text: the text before the match, group 1, and the text after the match. The
  group is the longest run without \<^verbatim>\<open>$\<close> after \<^verbatim>\<open><$\<close>, and the match needs
  \<^verbatim>\<open>$>\<close> right after it.
\<close>

fun find_token :: "string \<Rightarrow> (string \<times> string \<times> string) option" where
  "find_token [] = None"
| "find_token (c # cs) =
     (case (if c = CHR ''<'' \<and> take 1 cs = ''$''
            then (let body = takeWhile (\<lambda>x. x \<noteq> CHR ''$'') (drop 1 cs);
                      tail = dropWhile (\<lambda>x. x \<noteq> CHR ''$'') (drop 1 cs)
                  in if take 2 tail = ''$>'' then Some ([], body, drop 2 tail) else None)
            else None) of
        Some m \<Rightarrow> Some m
      | None \<Rightarrow> map_option (\<lambda>(before, group1, after). (c # before, group1, after))
                  (find_token cs))"

lemma find_token_shorter:
  "find_token s = Some (before, group1, after) \<Longrightarrow> length after < length s"
proof (induction s arbitrary: before)
  case Nil
  then show ?case by simp
next
  case (Cons c cs)
  have t: "length (dropWhile (\<lambda>x. x \<noteq> CHR ''$'') (drop 1 cs)) \<le> length cs"
    by (metis diff_le_self le_trans length_drop length_dropWhile_le)
  from Cons show ?case
    using t by (fastforce split: if_splits option.splits simp: Let_def)
qed

text \<open>\<^verbatim>\<open>pattern.sub(repl, text)\<close>: every match, from left to right, is replaced by
  what \<^verbatim>\<open>repl\<close> returns for it; an exception of \<^verbatim>\<open>repl\<close> ends the substitution.\<close>

function pattern_sub ::
  "interp \<Rightarrow> (string \<times> val) list \<Rightarrow> string \<Rightarrow> io \<Rightarrow> files
     \<Rightarrow> (error + string) \<times> io \<times> files" where
  "pattern_sub I made_decisions text w fs =
    (case find_token text of
       None \<Rightarrow> (Inr text, w, fs)
     | Some (before, group1, after) \<Rightarrow>
         (case repl I made_decisions group1 w fs of
            (Inl e, w1, fs1) \<Rightarrow> (Inl e, w1, fs1)
          | (Inr replacement, w1, fs1) \<Rightarrow>
              (case pattern_sub I made_decisions after w1 fs1 of
                 (Inl e, w2, fs2) \<Rightarrow> (Inl e, w2, fs2)
               | (Inr rest, w2, fs2) \<Rightarrow> (Inr (before @ replacement @ rest), w2, fs2))))"
  by pat_completeness auto
termination
  by (relation "measure (\<lambda>(I, md, text, w, fs). length text)")
     (auto dest: find_token_shorter)

declare pattern_sub.simps [simp del]

text \<open>The body of the loop over \<^verbatim>\<open>project_root.rglob('*')\<close>, lines 265 to 277, for
  one entry; the result is the exception that ended the run, if any, the console and
  the files. The substitution runs on the files as the backup left them, and what it
  returns is dropped.\<close>

definition rewrite_file ::
  "interp \<Rightarrow> bool \<Rightarrow> (string \<times> val) list \<Rightarrow> path \<Rightarrow> io \<Rightarrow> files
     \<Rightarrow> error option \<times> io \<times> files" where
  "rewrite_file I args_backup made_decisions file w fs =
    (if suffix file = ''.bkp'' then (None, w, fs)
     else if path_name file = ''README.md'' then (None, w, fs)
     else
       case read_text fs file of
         Inl e \<Rightarrow> if e = UnicodeError then (None, w, fs) else (Some e, w, fs)
       | Inr original \<Rightarrow>
           (case (if args_backup \<and> find_token original \<noteq> None
                  then (case with_suffix file ''.bkp'' of
                          Inl e \<Rightarrow> Inl e
                        | Inr backup_path \<Rightarrow> write_text fs backup_path original)
                  else Inr fs) of
              Inl e \<Rightarrow> (Some e, w, fs)
            | Inr fs1 \<Rightarrow>
                (case pattern_sub I made_decisions original w fs1 of
                   (Inl e, w1, fs2) \<Rightarrow> (Some e, w1, fs2)
                 | (Inr new_text, w1, fs2) \<Rightarrow> (None, w1, fs2))))"

text \<open>The loop, over the entries in the order in which \<^verbatim>\<open>rglob\<close> yields them.\<close>

fun rewrite_files ::
  "interp \<Rightarrow> bool \<Rightarrow> (string \<times> val) list \<Rightarrow> path list \<Rightarrow> io \<Rightarrow> files
     \<Rightarrow> error option \<times> io \<times> files" where
  "rewrite_files I args_backup made_decisions [] w fs = (None, w, fs)"
| "rewrite_files I args_backup made_decisions (file # entries) w fs =
     (case rewrite_file I args_backup made_decisions file w fs of
        (Some e, w1, fs1) \<Rightarrow> (Some e, w1, fs1)
      | (None, w1, fs1) \<Rightarrow> rewrite_files I args_backup made_decisions entries w1 fs1)"

section \<open>The run\<close>

text \<open>\<^verbatim>\<open>run_and_get\<close>, lines 202 to 206.\<close>

definition run_and_get :: "env \<Rightarrow> string \<Rightarrow> string option \<Rightarrow> string option" where
  "run_and_get E cmd dflt =
    (case run E cmd of
       (returncode, out) \<Rightarrow> if returncode \<noteq> 0 then dflt else Some (strip out))"

text \<open>\<^verbatim>\<open>s.splitlines()\<close>, for the line boundaries below code point 256.\<close>

definition is_linebreak :: "char \<Rightarrow> bool" where
  "is_linebreak c =
    (let n = (of_char c :: nat) in (10 \<le> n \<and> n \<le> 13) \<or> (28 \<le> n \<and> n \<le> 30) \<or> n = 133)"

fun splitlines_from :: "string \<Rightarrow> string \<Rightarrow> string list" where
  "splitlines_from cur [] = (if cur = [] then [] else [cur])"
| "splitlines_from cur [c] = (if is_linebreak c then [cur] else [cur @ [c]])"
| "splitlines_from cur (c # d # cs) =
     (if c = CHR 0x0D \<and> d = CHR 0x0A then cur # splitlines_from [] cs
      else if is_linebreak c then cur # splitlines_from [] (d # cs)
      else splitlines_from (cur @ [c]) (d # cs))"

definition splitlines :: "string \<Rightarrow> string list" where
  "splitlines s = splitlines_from [] s"

text \<open>The truth value of an optional string, as in \<^verbatim>\<open>if username:\<close>.\<close>

definition nonempty :: "string option \<Rightarrow> bool" where
  "nonempty x = (x \<noteq> None \<and> x \<noteq> Some [])"

text \<open>\<^verbatim>\<open>decisions[key].add_option(option)\<close>.\<close>

definition add_to ::
  "string \<Rightarrow> DecisionOption \<Rightarrow> (string \<times> resolver) list \<Rightarrow> (string \<times> resolver) list" where
  "add_to key option table =
    map (\<lambda>(k, r). if k = key then (k, add_option r option) else (k, r)) table"

text \<open>Lines 213 to 232: the project root and the options found in the surroundings.\<close>

definition project_root :: "env \<Rightarrow> path" where
  "project_root E = (if path_name (cwd E) = ''scripts'' then butlast (cwd E) else cwd E)"

definition add_remote :: "env \<Rightarrow> string \<Rightarrow> (string \<times> resolver) list \<Rightarrow> (string \<times> resolver) list" where
  "add_remote E remote table =
    (let url = run_and_get E (''git remote get-url '' @ remote) None in
     if nonempty url then
       (case url of
          Some u \<Rightarrow>
            add_to ''repo_link''
              (DecisionOption remote
                 (VStr (if drop (length u - 4) u = ''.git'' \<and> 4 \<le> length u
                        then take (length u - 4) u else u)))
              table
        | None \<Rightarrow> table)
     else table)"

definition probe :: "env \<Rightarrow> (string \<times> resolver) list \<Rightarrow> (string \<times> resolver) list" where
  "probe E table =
    (let t1 = add_to ''package''
                (DecisionOption ''folder_name'' (VStr (path_name (project_root E)))) table;
         t2 = add_to ''year'' (DecisionOption ''current year'' (VStr (show_nat (year E)))) t1;
         username = run_and_get E ''git config user.name'' None;
         t3 = (if nonempty username then
                 (let email = run_and_get E ''git config user.email'' None in
                  if nonempty email then
                    add_to ''authors''
                      (DecisionOption ''git user''
                         (Authors (the username @ '' <'' @ the email @ ''>''))) t2
                  else t2)
               else t2);
         remotes = splitlines (case run_and_get E ''git remote'' (Some []) of
                                 Some out \<Rightarrow> out | None \<Rightarrow> [])
     in foldl (\<lambda>t remote. add_remote E remote t) t3 remotes)"

text \<open>\<^verbatim>\<open>made_decisions[key] = v\<close>.\<close>

definition dict_set :: "(string \<times> val) list \<Rightarrow> string \<Rightarrow> val \<Rightarrow> (string \<times> val) list" where
  "dict_set d key v =
    (if key \<in> fst ` set d then map (\<lambda>(k, x). if k = key then (k, v) else (k, x)) d
     else d @ [(key, v)])"

text \<open>The loop of lines 236 and 237.\<close>

fun resolve_all ::
  "interp \<Rightarrow> (string \<times> resolver) list \<Rightarrow> (string \<times> val) list \<Rightarrow> io
     \<Rightarrow> (error + (string \<times> val) list) \<times> io" where
  "resolve_all I [] made_decisions w = (Inr made_decisions, w)"
| "resolve_all I ((nm, resolver) # table) made_decisions w =
     (case make I resolver nm w of
        (Inl e, w1) \<Rightarrow> (Inl e, w1)
      | (Inr v, w1) \<Rightarrow> resolve_all I table (dict_set made_decisions nm v) w1)"

text \<open>Lines 280 to 283: the package directory and its version file. A package name
  that is a string is one path component; any other value cannot be joined to a
  path.\<close>

definition make_package ::
  "(string \<times> val) list \<Rightarrow> io \<Rightarrow> files \<Rightarrow> error option \<times> io \<times> files" where
  "make_package made_decisions w fs =
    (case map_of made_decisions ''package'' of
       None \<Rightarrow> (Some (KeyError ''package''), w, fs)
     | Some (VStr pkg_name) \<Rightarrow>
         (case mkdir fs [pkg_name] of
            Inl e \<Rightarrow> (Some e, w, fs)
          | Inr fs1 \<Rightarrow>
              (case write_text fs1 [pkg_name, ''_version.py''] ''__version__ = 0.0.1dev'' of
                 Inl e \<Rightarrow> (Some e, w, fs1)
               | Inr fs2 \<Rightarrow> (None, w, fs2)))
     | Some v \<Rightarrow> (Some (TypeError ''unsupported operand type(s) for /''), w, fs))"

text \<open>Lines 246 to 286, what \<^verbatim>\<open>main\<close> does once the user has confirmed: the rewrite
  pass and the package directory. The flag \<^verbatim>\<open>del_script\<close> has no effect.\<close>

definition fill ::
  "interp \<Rightarrow> args \<Rightarrow> (string \<times> val) list \<Rightarrow> path list \<Rightarrow> io \<Rightarrow> files
     \<Rightarrow> error option \<times> io \<times> files" where
  "fill I a made_decisions entries w fs =
    (case rewrite_files I (backup a) made_decisions entries w fs of
       (Some e, w1, fs1) \<Rightarrow> (Some e, w1, fs1)
     | (None, w1, fs1) \<Rightarrow> make_package made_decisions w1 fs1)"

text \<open>The console when \<^verbatim>\<open>main\<close> asks for the confirmation, lines 239 to 241.\<close>

definition confirmation_shown :: "interp \<Rightarrow> (string \<times> val) list \<Rightarrow> io \<Rightarrow> io" where
  "confirmation_shown I made_decisions w =
    print (ext_pformat I made_decisions)
      (print (''You are about to fill the project with the following values.''
              @ '' Enter a blank line to proceed or any other input to cancel.'') w)"

text \<open>
  \<^verbatim>\<open>main\<close>, lines 209 to 286. \<open>entries\<close> is what \<^verbatim>\<open>project_root.rglob('*')\<close>
  yields, as paths below the project root. The result is the exception that ended the
  run, if any (\<^verbatim>\<open>sys.exit(1)\<close> raises \<^verbatim>\<open>SystemExit\<close>), the console and the files.
\<close>

definition main ::
  "interp \<Rightarrow> args \<Rightarrow> env \<Rightarrow> path list \<Rightarrow> io \<Rightarrow> files \<Rightarrow> error option \<times> io \<times> files" where
  "main I a E entries w fs =
    (case resolve_all I (probe E decisions) [] w of
       (Inl e, w1) \<Rightarrow> (Some e, w1, fs)
     | (Inr made_decisions, w1) \<Rightarrow>
         (case input [] (confirmation_shown I made_decisions w1) of
            (Inl e, w2) \<Rightarrow> (Some e, w2, fs)
          | (Inr response, w2) \<Rightarrow>
              if response \<noteq> [] then (Some (SystemExit 1), w2, fs)
              else fill I a made_decisions entries w2 fs))"

text \<open>The exit status of the process: that of \<^verbatim>\<open>SystemExit\<close>, 1 for any other
  exception, 0 when the run ends normally.\<close>

fun exit_status :: "error option \<Rightarrow> int" where
  "exit_status None = 0"
| "exit_status (Some (SystemExit n)) = n"
| "exit_status (Some e) = 1"

section \<open>An interpreter without extras\<close>

text \<open>
  For evaluating the script at concrete inputs: an interpreter in which every value
  outside the model prints as \<^verbatim>\<open><object>\<close>, has no builtin attribute, and every
  snippet that is not a name of the script raises \<^verbatim>\<open>NameError\<close>; at most 4300 digits
  are converted by \<^verbatim>\<open>int\<close>.
\<close>

definition bare_interp :: interp where
  "bare_interp =
    \<lparr> ext_repr = (\<lambda>v. ''<object>''),
      ext_attr = (\<lambda>v a. None),
      ext_eval = (\<lambda>md locals code w fs. (Inl (NameError code), w, fs)),
      ext_call = (\<lambda>f args w fs. (Inl (TypeError ''object is not callable''), w, fs)),
      ext_callable = (\<lambda>n. False),
      ext_truthy = (\<lambda>n. True),
      ext_len = (\<lambda>n. Inl (TypeError ''object has no len()'')),
      ext_slice = (\<lambda>v lo hi. Inl (TypeError ''object is not subscriptable'')),
      ext_pformat = (\<lambda>md. ''{...}''),
      ext_type = (\<lambda>v. ''<class>''),
      int_max_str_digits = 4300 \<rparr>"

section \<open>Notions used in the statements\<close>

text \<open>The values whose preview is formatted by the script's own classes or is a
  string: everything but lists, tuples and values of the interpreter.\<close>

fun own_formatted :: "val \<Rightarrow> bool" where
  "own_formatted (VList vs) = False"
| "own_formatted (VOption d) = False"
| "own_formatted (VExt n) = False"
| "own_formatted v = True"

text \<open>The text \<^verbatim>\<open>describe\<close> previews for a string value: \<^verbatim>\<open>value or repr(value)\<close>.\<close>

definition preview :: "string \<Rightarrow> string" where
  "preview s = (if s = [] then [CHR 0x27, CHR 0x27] else s)"

text \<open>The console after \<^verbatim>\<open>make\<close> has shown its menu and read one line, after it has
  also asked for custom text and read a second line, and after it has reported that the
  custom text does not match.\<close>

definition asked :: "interp \<Rightarrow> resolver \<Rightarrow> string \<Rightarrow> io \<Rightarrow> string list \<Rightarrow> io" where
  "asked I self nm w rest =
     w\<lparr>stdin := rest,
       stdout := stdout w @ [py_join [CHR 0x0A] (menu I self nm) @ [CHR 0x0A]]\<rparr>"

definition asked_custom :: "interp \<Rightarrow> resolver \<Rightarrow> string \<Rightarrow> io \<Rightarrow> string list \<Rightarrow> io" where
  "asked_custom I self nm w rest =
     w\<lparr>stdin := rest,
       stdout := stdout w @ [py_join [CHR 0x0A] (menu I self nm) @ [CHR 0x0A],
                             ''enter custom text:'' @ [CHR 0x0A]]\<rparr>"

definition rejected :: "string \<Rightarrow> io \<Rightarrow> io" where
  "rejected description w =
     print ''could not parse t'' (print (''must match '' @ description) w)"

text \<open>
  The words of the specification for the text of an author list: one or more groups
  \<^verbatim>\<open>Name <email>\<close>, separated by a comma and optional white space. A group is a
  non-empty name of letters, digits, underscores and white space, one white space, and
  between angle brackets two non-empty runs of letters, digits, dots and underscores
  around an \<^verbatim>\<open>@\<close>. \<open>joined_authors g others\<close> is the text with first group
  \<open>g\<close> and every further group \<open>h\<close> preceded by a comma and the white space
  \<open>ws\<close>.
\<close>

definition author_group :: "string \<Rightarrow> bool" where
  "author_group g \<longleftrightarrow>
    (\<exists>nm sp loc dom.
       g = nm @ [sp] @ ''<'' @ loc @ ''@'' @ dom @ ''>''
       \<and> nm \<noteq> [] \<and> (\<forall>c \<in> set nm. name_char c) \<and> is_space sp
       \<and> loc \<noteq> [] \<and> (\<forall>c \<in> set loc. mail_char c)
       \<and> dom \<noteq> [] \<and> (\<forall>c \<in> set dom. mail_char c))"

definition joined_authors :: "string \<Rightarrow> (string \<times> string) list \<Rightarrow> string" where
  "joined_authors g others = g @ concat (map (\<lambda>(ws, h). '','' @ ws @ h) others)"

definition author_groups :: "string \<Rightarrow> (string \<times> string) list \<Rightarrow> bool" where
  "author_groups g others \<longleftrightarrow>
    author_group g \<and> (\<forall>(ws, h) \<in> set others. (\<forall>c \<in> set ws. is_space c) \<and> author_group h)"

definition author_list_text :: "string \<Rightarrow> bool" where
  "author_list_text x \<longleftrightarrow> (\<exists>g others. author_groups g others \<and> x = joined_authors g others)"

text \<open>Two resolvers of the table \<^verbatim>\<open>decisions\<close>, for evaluating at concrete inputs.\<close>

definition year_resolver :: resolver where
  "year_resolver = mk_ConstResolver [] (Some year_pattern)"

definition versions_resolver :: resolver where
  "versions_resolver = mk_ConstResolver initial_version_options (Some any_pattern)"

text \<open>The entries the loop does not skip, and the text files that hold a placeholder.\<close>

definition scanned :: "path \<Rightarrow> bool" where
  "scanned p \<longleftrightarrow> suffix p \<noteq> ''.bkp'' \<and> path_name p \<noteq> ''README.md''"

definition has_placeholder :: "files \<Rightarrow> path \<Rightarrow> bool" where
  "has_placeholder fs p =
    (case fs p of Some (Text t) \<Rightarrow> find_token t \<noteq> None | _ \<Rightarrow> False)"

text \<open>Concrete inputs: a dictionary of decisions, a console, file trees, surroundings
  without a git identity or remotes, the answers of a session, and the decisions that
  session makes.\<close>

definition widgets :: "(string \<times> val) list" where
  "widgets = [(''package'', VStr ''widgets'')]"

definition no_console :: io where
  "no_console = \<lparr>stdin = [], stdout = []\<rparr>"

definition two_sources :: files where
  "two_sources =
     Map.empty([''a.txt''] \<mapsto> Text ''<$package$>'', [''a.py''] \<mapsto> Text ''x = <$package$>'')"

definition three_sources :: files where
  "three_sources =
     Map.empty([''a.txt''] \<mapsto> Text ''<$package$>'', [''b.py''] \<mapsto> Text ''x = <$package$>'',
               [''c.txt''] \<mapsto> Text ''plain'')"

definition quiet_env :: env where
  "quiet_env = \<lparr>cwd = [''home'', ''me'', ''widgets''], year = 2026, run = (\<lambda>cmd. (1, []))\<rparr>"

definition answers :: "string list" where
  "answers = [''0'', ''t'', ''Ann Lee <ann@x.com>'', ''0'', ''t'', ''https://example.org/x'',
              ''0'', ''0'', ''0'', ''0'']"

definition chosen :: "(string \<times> val) list" where
  "chosen =
    [(''package'', VOption (DecisionOption ''folder_name'' (VStr ''widgets''))),
     (''authors'', VAuthors [''Ann Lee <ann@x.com>'']),
     (''year'', VOption (DecisionOption ''current year'' (VStr ''2026''))),
     (''repo_link'', VStr ''https://example.org/x''),
     (''license'', VOption (hd license_options)),
     (''py_versions'', VOption (hd py_version_options)),
     (''os_platforms'', VOption (hd platform_options)),
     (''inital_version'', VOption (hd initial_version_options))]"

text \<open>
  Substituting the placeholders of the text \<open>t\<close> writes no file, whatever the console
  and the files are: the accessors of the placeholders are evaluated as code, which
  may do anything. \<open>file_pure I\<close> says so of everything the interpreter \<open>I\<close>
  evaluates and calls.
\<close>

definition quiet_sub :: "interp \<Rightarrow> (string \<times> val) list \<Rightarrow> string \<Rightarrow> bool" where
  "quiet_sub I md t \<longleftrightarrow> (\<forall>w fs. snd (snd (pattern_sub I md t w fs)) = fs)"

definition file_pure :: "interp \<Rightarrow> bool" where
  "file_pure I \<longleftrightarrow>
    (\<forall>md locals code w fs. snd (snd (ext_eval I md locals code w fs)) = fs)
    \<and> (\<forall>f args w fs. snd (snd (ext_call I f args w fs)) = fs)"

text \<open>
  An interpreter in which the snippet \<^verbatim>\<open>open('a.bkp','w').write\<close> evaluates as in
  Python: the file \<^verbatim>\<open>a.bkp\<close> of the working directory is opened for writing, which
  empties it, and the \<^verbatim>\<open>write\<close> method of the open file is returned, which raises
  \<^verbatim>\<open>TypeError\<close> when called with \<^verbatim>\<open>None\<close>. Everything else is as in
  \<open>bare_interp\<close>. \<open>one_source\<close> is a tree whose one file uses that snippet as the
  accessor of a placeholder.
\<close>

definition write_snippet :: string where
  "write_snippet =
    ''open('' @ [CHR 0x27] @ ''a.bkp'' @ [CHR 0x27] @ '','' @ [CHR 0x27] @ ''w'' @ [CHR 0x27]
    @ '').write''"

definition opening_interp :: interp where
  "opening_interp =
    bare_interp
      \<lparr> ext_eval := (\<lambda>md locals code w fs.
           if code = write_snippet then (Inr (VExt 0), w, fs([''a.bkp''] \<mapsto> Text []))
           else (Inl (NameError code), w, fs)),
        ext_call := (\<lambda>f args w fs.
           if f = VExt 0 \<and> args = [VNone]
           then (Inl (TypeError ''write() argument must be str, not None''), w, fs)
           else (Inl (TypeError ''object is not callable''), w, fs)),
        ext_callable := (\<lambda>n. n = 0) \<rparr>"

definition one_source :: files where
  "one_source = Map.empty([''a.txt''] \<mapsto> Text (''<$package!'' @ write_snippet @ ''$>''))"

section \<open>Properties\<close>

subsection \<open>Integers and their text\<close>

lemma digit_char_props: "d < 10 \<Longrightarrow> is_digit (digit_char d) \<and> digit_val (digit_char d) = d \<and> \<not> is_space (digit_char d)"
  by (simp add: is_digit_def digit_val_def digit_char_def is_space_def Let_def)

lemma show_nat_digits: "c \<in> set (show_nat n) \<Longrightarrow> is_digit c"
proof (induction n rule: show_nat.induct)
  case (1 n)
  show ?case
  proof (cases "n < 10")
    case True
    with 1(2) show ?thesis using show_nat.simps[of n] by (simp add: digit_char_props)
  next
    case False
    with 1 show ?thesis
      using show_nat.simps[of n] by (auto simp: digit_char_props)
  qed
qed

lemma show_nat_nonempty: "show_nat n \<noteq> []"
  by (subst show_nat.simps) simp

lemma digits_from_all:
  "\<forall>c \<in> set s. is_digit c \<Longrightarrow> digits_from acc s = Some (foldl (\<lambda>a c. 10 * a + digit_val c) acc s)"
  by (induction acc s rule: digits_from.induct) auto

lemma foldl_show_nat: "foldl (\<lambda>a c. 10 * a + digit_val c) 0 (show_nat n) = n"
proof (induction n rule: show_nat.induct)
  case (1 n)
  show ?case
  proof (cases "n < 10")
    case True
    then show ?thesis by (subst show_nat.simps) (simp add: digit_char_props)
  next
    case False
    with 1 show ?thesis
      by (subst show_nat.simps) (simp add: digit_char_props)
  qed
qed

lemma digits_show_nat: "digits (show_nat n) = Some n"
proof -
  obtain c cs where s: "show_nat n = c # cs"
    using show_nat_nonempty[of n] by (cases "show_nat n") auto
  have "is_digit c" using show_nat_digits[of c n] s by simp
  then show ?thesis
    using digits_from_all[of "show_nat n" 0] show_nat_digits[of _ n] foldl_show_nat[of n] s
    by (simp add: digits_def)
qed

lemma int_strip_clean:
  assumes "s \<noteq> []" "\<not> is_int_space (hd s)" "\<not> is_int_space (last s)"
  shows "int_strip s = s"
proof -
  from assms have 1: "dropWhile is_int_space s = s" by (cases s) auto
  from assms have "rev s \<noteq> []" "\<not> is_int_space (hd (rev s))" by (auto simp: hd_rev)
  then have 2: "dropWhile is_int_space (rev s) = rev s" by (cases "rev s") auto
  show ?thesis by (simp add: int_strip_def 1 2)
qed

lemma few_digits:
  assumes "length s \<le> 640"
  shows "\<not> too_many_digits I s"
proof -
  have "length (filter is_digit s) \<le> length s" by simp
  with assms have "\<not> 640 < length (filter is_digit s)" by linarith
  then show ?thesis by (simp add: too_many_digits_def Let_def)
qed

lemma py_int_minus_show:
  assumes "length (show_nat k) < 640"
  shows "py_int I (CHR ''-'' # show_nat k) = Some (- int k)"
proof -
  have l: "is_digit (last (show_nat k))"
    using show_nat_digits[of "last (show_nat k)" k] show_nat_nonempty[of k] by simp
  have "\<not> is_int_space (last (CHR ''-'' # show_nat k))"
    using l show_nat_nonempty[of k] by (auto simp: is_digit_def is_int_space_def Let_def)
  then have "int_strip (CHR ''-'' # show_nat k) = CHR ''-'' # show_nat k"
    by (intro int_strip_clean) (auto simp: is_int_space_def)
  moreover have "\<not> too_many_digits I (CHR ''-'' # show_nat k)"
    using assms by (intro few_digits) simp
  ultimately show ?thesis by (simp add: py_int_def digits_show_nat)
qed

lemma py_int_separator: "py_int I (CHR 0x1F # ''-1'') = None"
  by (simp add: py_int_def too_many_digits_def int_strip_def is_int_space_def digits_def
      is_digit_def)

subsection \<open>The matcher decides the language\<close>

lemma nullable_lang: "nullable r \<longleftrightarrow> [] \<in> lang r"
  by (induction r) (auto intro: star.intros)

lemma star_cons:
  "c # w \<in> star A \<longleftrightarrow> (\<exists>u v. c # u \<in> A \<and> v \<in> star A \<and> w = u @ v)"
proof
  assume "c # w \<in> star A"
  then show "\<exists>u v. c # u \<in> A \<and> v \<in> star A \<and> w = u @ v"
  proof (induction "c # w" arbitrary: w rule: star.induct)
    case (star_step u v)
    then show ?case
      by (cases u) auto
  qed
next
  assume "\<exists>u v. c # u \<in> A \<and> v \<in> star A \<and> w = u @ v"
  then obtain u v where "c # u \<in> A" "v \<in> star A" "w = u @ v" by blast
  then show "c # w \<in> star A"
    using star.star_step[of "c # u" A v] by simp
qed

lemma lang_deriv: "lang (deriv c r) = {w. c # w \<in> lang r}"
proof (induction r)
  case (Seq r s)
  show ?case
  proof (rule set_eqI)
    fix w
    have "c # w \<in> lang (Seq r s) \<longleftrightarrow>
          (\<exists>u v. c # u \<in> lang r \<and> v \<in> lang s \<and> w = u @ v) \<or> ([] \<in> lang r \<and> c # w \<in> lang s)"
      by (auto simp: Cons_eq_append_conv) 
    then show "w \<in> lang (deriv c (Seq r s)) \<longleftrightarrow> w \<in> {w. c # w \<in> lang (Seq r s)}"
      using Seq by (auto simp: nullable_lang)
  qed
next
  case (Star r)
  then show ?case by (auto simp: star_cons)
qed auto

lemma fullmatch_lang: "fullmatch r s \<longleftrightarrow> s \<in> lang r"
proof -
  have "nullable (foldl (\<lambda>r c. deriv c r) r s) \<longleftrightarrow> s \<in> lang r" for r
    by (induction s arbitrary: r) (simp_all add: nullable_lang lang_deriv)
  then show ?thesis by (simp add: fullmatch_def)
qed

lemma lang_Class_Seq_cons: "c # w \<in> lang (Seq (Class P) r) \<longleftrightarrow> P c \<and> w \<in> lang r"
proof
  assume "c # w \<in> lang (Seq (Class P) r)"
  then obtain d v where "c # w = [d] @ v" "P d" "v \<in> lang r" by auto
  then show "P c \<and> w \<in> lang r" by simp
next
  assume a: "P c \<and> w \<in> lang r"
  have "c # w = [c] @ w" by simp
  with a show "c # w \<in> lang (Seq (Class P) r)" unfolding lang.simps by blast
qed

lemma lang_Class_Seq_nil: "[] \<notin> lang (Seq (Class P) r)"
  by auto

lemma year_lang: "x \<in> lang year_pattern \<longleftrightarrow> length x = 4 \<and> (\<forall>c \<in> set x. is_digit c)"
proof
  assume "x \<in> lang year_pattern"
  then show "length x = 4 \<and> (\<forall>c \<in> set x. is_digit c)"
    by (auto simp: year_pattern_def)
next
  assume a: "length x = 4 \<and> (\<forall>c \<in> set x. is_digit c)"
  then obtain a b c d where "x = [a, b, c, d]"
    by (auto simp: length_Suc_conv numeral_eq_Suc)
  with a show "x \<in> lang year_pattern"
    unfolding year_pattern_def by (simp only: lang_Class_Seq_cons) simp
qed

lemma star_Class: "w \<in> star (lang (Class P)) \<longleftrightarrow> (\<forall>c \<in> set w. P c)"
proof (induction w)
  case Nil
  show ?case by (simp add: star.star_empty)
next
  case (Cons c w)
  have "c # w \<in> star (lang (Class P)) \<longleftrightarrow> P c \<and> w \<in> star (lang (Class P))"
    by (subst star_cons) auto
  with Cons show ?case by simp
qed

lemma lang_Plus_Class: "w \<in> lang (Plus (Class P)) \<longleftrightarrow> w \<noteq> [] \<and> (\<forall>c \<in> set w. P c)"
proof (cases w)
  case Nil
  then show ?thesis by (simp add: Plus_def)
next
  case (Cons c u)
  have "c # u \<in> lang (Seq (Class P) (Star (Class P))) \<longleftrightarrow> P c \<and> (\<forall>c \<in> set u. P c)"
    by (simp only: lang_Class_Seq_cons lang.simps(6) star_Class)
  then show ?thesis unfolding Plus_def Cons by simp
qed

lemma star_concat: "w \<in> star A \<longleftrightarrow> (\<exists>ws. w = concat ws \<and> set ws \<subseteq> A)"
proof
  assume "w \<in> star A"
  then show "\<exists>ws. w = concat ws \<and> set ws \<subseteq> A"
  proof (induction rule: star.induct)
    case star_empty
    show ?case by (rule exI[of _ "[]"]) simp
  next
    case (star_step u v)
    then obtain ws where "v = concat ws" "set ws \<subseteq> A" by blast
    with star_step(1) show ?case by (intro exI[of _ "u # ws"]) simp
  qed
next
  assume "\<exists>ws. w = concat ws \<and> set ws \<subseteq> A"
  then obtain ws where "w = concat ws" "set ws \<subseteq> A" by blast
  then show "w \<in> star A"
    by (induction ws arbitrary: w) (auto intro: star.intros)
qed

lemma lang_Seq: "w \<in> lang (Seq r s) \<longleftrightarrow> (\<exists>u v. w = u @ v \<and> u \<in> lang r \<and> v \<in> lang s)"
  by auto

lemma lang_Lit: "w \<in> lang (Lit c) \<longleftrightarrow> w = [c]"
  by (auto simp: Lit_def)

lemma lang_Class: "w \<in> lang (Class P) \<longleftrightarrow> (\<exists>c. w = [c] \<and> P c)"
  by auto

lemma lang_Plus_Class_Seq:
  "w \<in> lang (Seq (Plus (Class P)) r) \<longleftrightarrow>
     (\<exists>u v. w = u @ v \<and> u \<noteq> [] \<and> (\<forall>c \<in> set u. P c) \<and> v \<in> lang r)"
  by (simp only: lang_Seq lang_Plus_Class) blast

lemma lang_Class_Seq:
  "w \<in> lang (Seq (Class P) r) \<longleftrightarrow> (\<exists>c v. w = c # v \<and> P c \<and> v \<in> lang r)"
  by (cases w) (simp_all only: lang_Class_Seq_cons lang_Class_Seq_nil, auto)

lemma lang_Lit_Seq: "w \<in> lang (Seq (Lit c) r) \<longleftrightarrow> (\<exists>v. w = c # v \<and> v \<in> lang r)"
  unfolding Lit_def by (simp only: lang_Class_Seq) auto

lemma author_lang: "g \<in> lang author_pattern \<longleftrightarrow> author_group g"
proof
  assume "g \<in> lang author_pattern"
  then obtain nm v1 where 1: "g = nm @ v1" "nm \<noteq> []" "\<forall>c \<in> set nm. name_char c"
    and "v1 \<in> lang (Seq (Class is_space) (Seq (Lit CHR ''<'') (Seq (Plus (Class mail_char))
           (Seq (Lit CHR ''@'') (Seq (Plus (Class mail_char)) (Lit CHR ''>''))))))"
    unfolding author_pattern_def lang_Plus_Class_Seq by blast
  then obtain sp v2 where 2: "v1 = sp # v2" "is_space sp"
    and "v2 \<in> lang (Seq (Lit CHR ''<'') (Seq (Plus (Class mail_char))
           (Seq (Lit CHR ''@'') (Seq (Plus (Class mail_char)) (Lit CHR ''>'')))))"
    unfolding lang_Class_Seq by blast
  then obtain v3 where 3: "v2 = CHR ''<'' # v3"
    and "v3 \<in> lang (Seq (Plus (Class mail_char))
           (Seq (Lit CHR ''@'') (Seq (Plus (Class mail_char)) (Lit CHR ''>''))))"
    unfolding lang_Lit_Seq by blast
  then obtain loc v4 where 4: "v3 = loc @ v4" "loc \<noteq> []" "\<forall>c \<in> set loc. mail_char c"
    and "v4 \<in> lang (Seq (Lit CHR ''@'') (Seq (Plus (Class mail_char)) (Lit CHR ''>'')))"
    unfolding lang_Plus_Class_Seq by blast
  then obtain v5 where 5: "v4 = CHR ''@'' # v5"
    and "v5 \<in> lang (Seq (Plus (Class mail_char)) (Lit CHR ''>''))"
    unfolding lang_Lit_Seq by blast
  then obtain dom v6 where 6: "v5 = dom @ v6" "dom \<noteq> []" "\<forall>c \<in> set dom. mail_char c"
    and "v6 \<in> lang (Lit CHR ''>'')"
    unfolding lang_Plus_Class_Seq by blast
  then have 7: "v6 = ''>''" by (simp only: lang_Lit)
  have "g = nm @ [sp] @ ''<'' @ loc @ ''@'' @ dom @ ''>''"
    using 1(1) 2(1) 3 4(1) 5 6(1) 7 by simp
  then show "author_group g"
    unfolding author_group_def using 1(2,3) 2(2) 4(2,3) 6(2,3) by blast
next
  assume "author_group g"
  then obtain nm sp loc dom where g: "g = nm @ [sp] @ ''<'' @ loc @ ''@'' @ dom @ ''>''"
    and p: "nm \<noteq> []" "\<forall>c \<in> set nm. name_char c" "is_space sp"
       "loc \<noteq> []" "\<forall>c \<in> set loc. mail_char c" "dom \<noteq> []" "\<forall>c \<in> set dom. mail_char c"
    unfolding author_group_def by blast
  have 6: "dom @ ''>'' \<in> lang (Seq (Plus (Class mail_char)) (Lit CHR ''>''))"
    unfolding lang_Plus_Class_Seq using p(6,7) by (auto simp only: lang_Lit)
  have 5: "CHR ''@'' # dom @ ''>'' \<in> lang (Seq (Lit CHR ''@'') (Seq (Plus (Class mail_char)) (Lit CHR ''>'')))"
    unfolding lang_Lit_Seq using 6 by blast
  have 4: "loc @ CHR ''@'' # dom @ ''>'' \<in> lang (Seq (Plus (Class mail_char))
           (Seq (Lit CHR ''@'') (Seq (Plus (Class mail_char)) (Lit CHR ''>''))))"
    unfolding lang_Plus_Class_Seq using 5 p(4,5) by blast
  have 3: "CHR ''<'' # loc @ CHR ''@'' # dom @ ''>'' \<in> lang (Seq (Lit CHR ''<'') (Seq (Plus (Class mail_char))
           (Seq (Lit CHR ''@'') (Seq (Plus (Class mail_char)) (Lit CHR ''>'')))))"
    unfolding lang_Lit_Seq using 4 by blast
  have 2: "sp # CHR ''<'' # loc @ CHR ''@'' # dom @ ''>'' \<in> lang (Seq (Class is_space) (Seq (Lit CHR ''<'') (Seq (Plus (Class mail_char))
           (Seq (Lit CHR ''@'') (Seq (Plus (Class mail_char)) (Lit CHR ''>''))))))"
    unfolding lang_Class_Seq using 3 p(3) by blast
  have "nm @ sp # CHR ''<'' # loc @ CHR ''@'' # dom @ ''>'' \<in> lang author_pattern"
    unfolding author_pattern_def lang_Plus_Class_Seq using 2 p(1,2) by blast
  then show "g \<in> lang author_pattern" using g by simp
qed

lemma tail_group_lang:
  "w \<in> lang (Seq (Lit CHR '','') (Seq (Star (Class is_space)) author_pattern)) \<longleftrightarrow>
     (\<exists>ws h. w = '','' @ ws @ h \<and> (\<forall>c \<in> set ws. is_space c) \<and> author_group h)"
proof -
  have "v \<in> lang (Seq (Star (Class is_space)) author_pattern) \<longleftrightarrow>
     (\<exists>ws h. v = ws @ h \<and> (\<forall>c \<in> set ws. is_space c) \<and> author_group h)" for v
    by (simp only: lang_Seq lang.simps(6) star_Class author_lang)
  then show ?thesis
    by (simp only: lang_Lit_Seq) auto
qed

lemma map_choice:
  "(\<forall>t \<in> set ts. \<exists>p. t = f p \<and> Q p) \<Longrightarrow> \<exists>ps. ts = map f ps \<and> (\<forall>p \<in> set ps. Q p)"
proof (induction ts)
  case Nil
  show ?case by simp
next
  case (Cons t ts)
  then obtain ps where ps: "ts = map f ps" "\<forall>p \<in> set ps. Q p" by auto
  from Cons.prems obtain p where p: "t = f p" "Q p" by auto
  show ?case
    by (rule exI[of _ "p # ps"]) (simp add: ps p)
qed

lemma authors_lang: "x \<in> lang authors_pattern \<longleftrightarrow> author_list_text x"
proof
  assume "x \<in> lang authors_pattern"
  then obtain g t where x: "x = g @ t" and g: "author_group g"
    and t: "t \<in> star (lang (Seq (Lit CHR '','') (Seq (Star (Class is_space)) author_pattern)))"
    unfolding authors_pattern_def by (simp only: lang_Seq lang.simps(6) author_lang) blast
  from t obtain ts where ts: "t = concat ts"
    and "set ts \<subseteq> lang (Seq (Lit CHR '','') (Seq (Star (Class is_space)) author_pattern))"
    unfolding star_concat by blast
  then have sub: "set ts \<subseteq> lang (Seq (Lit CHR '','') (Seq (Star (Class is_space)) author_pattern))"
    by simp
  have "\<exists>p. t = (\<lambda>(ws, h). '','' @ ws @ h) p
                \<and> (\<lambda>(ws, h). (\<forall>c \<in> set ws. is_space c) \<and> author_group h) p"
    if "t \<in> set ts" for t
  proof -
    from that sub
    have "t \<in> lang (Seq (Lit CHR '','') (Seq (Star (Class is_space)) author_pattern))"
      by blast
    then obtain ws h where "t = '','' @ ws @ h" "\<forall>c \<in> set ws. is_space c" "author_group h"
      unfolding tail_group_lang by blast
    then show ?thesis by (intro exI[of _ "(ws, h)"]) simp
  qed
  then have "\<forall>t \<in> set ts. \<exists>p. t = (\<lambda>(ws, h). '','' @ ws @ h) p
                \<and> (\<lambda>(ws, h). (\<forall>c \<in> set ws. is_space c) \<and> author_group h) p"
    by blast
  from map_choice[OF this] obtain others where
    o: "ts = map (\<lambda>(ws, h). '','' @ ws @ h) others"
       "\<forall>p \<in> set others. (\<lambda>(ws, h). (\<forall>c \<in> set ws. is_space c) \<and> author_group h) p"
    by blast
  show "author_list_text x"
    unfolding author_list_text_def author_groups_def joined_authors_def
    using x g ts o by blast
next
  assume "author_list_text x"
  then obtain g others where g: "author_group g"
    and o: "\<forall>(ws, h) \<in> set others. (\<forall>c \<in> set ws. is_space c) \<and> author_group h"
    and x: "x = g @ concat (map (\<lambda>(ws, h). '','' @ ws @ h) others)"
    unfolding author_list_text_def author_groups_def joined_authors_def by blast
  have "set (map (\<lambda>(ws, h). '','' @ ws @ h) others)
          \<subseteq> lang (Seq (Lit CHR '','') (Seq (Star (Class is_space)) author_pattern))"
  proof
    fix t
    assume "t \<in> set (map (\<lambda>(ws, h). '','' @ ws @ h) others)"
    then obtain ws h where m: "(ws, h) \<in> set others" and t: "t = '','' @ ws @ h"
      by auto
    from o m have "(\<forall>c \<in> set ws. is_space c) \<and> author_group h" by blast
    with t show "t \<in> lang (Seq (Lit CHR '','') (Seq (Star (Class is_space)) author_pattern))"
      unfolding tail_group_lang by blast
  qed
  then have "concat (map (\<lambda>(ws, h). '','' @ ws @ h) others)
          \<in> star (lang (Seq (Lit CHR '','') (Seq (Star (Class is_space)) author_pattern)))"
    unfolding star_concat by blast
  with g x show "x \<in> lang authors_pattern"
    unfolding authors_pattern_def by (simp only: lang_Seq lang.simps(6) author_lang) blast
qed

lemma split_on_none: "sep \<notin> set s \<Longrightarrow> split_on sep s = [s]"
  by (induction s) auto

lemma split_on_first: "sep \<notin> set u \<Longrightarrow> split_on sep (u @ sep # v) = u # split_on sep v"
  by (induction u) auto

lemma comma_class:
  "\<not> name_char CHR '',''" "\<not> mail_char CHR '',''" "\<not> is_space CHR '',''"
  by (simp_all add: name_char_def mail_char_def is_alpha_def is_digit_def is_space_def)

lemma author_group_no_comma:
  assumes "author_group g"
  shows "CHR '','' \<notin> set g"
proof -
  from assms obtain nm sp loc dom where g: "g = nm @ [sp] @ ''<'' @ loc @ ''@'' @ dom @ ''>''"
    and p: "\<forall>c \<in> set nm. name_char c" "is_space sp"
       "\<forall>c \<in> set loc. mail_char c" "\<forall>c \<in> set dom. mail_char c"
    unfolding author_group_def by blast
  have "CHR '','' \<notin> set nm" "CHR '','' \<noteq> sp" "CHR '','' \<notin> set loc" "CHR '','' \<notin> set dom"
    using p comma_class by blast+
  then show ?thesis unfolding g by simp
qed

lemma split_joined:
  assumes "CHR '','' \<notin> set g"
    and "\<forall>(ws, h) \<in> set others. CHR '','' \<notin> set ws \<and> CHR '','' \<notin> set h"
  shows "split_on CHR '','' (joined_authors g others) = g # map (\<lambda>(ws, h). ws @ h) others"
  using assms
proof (induction others arbitrary: g)
  case Nil
  then show ?case by (simp add: joined_authors_def split_on_none)
next
  case (Cons p others)
  obtain ws h where p: "p = (ws, h)" by (cases p)
  have "split_on CHR '','' (joined_authors (ws @ h) others)
          = (ws @ h) # map (\<lambda>(ws, h). ws @ h) others"
    using Cons.prems(2) p by (intro Cons.IH) auto
  then show ?case
    using Cons.prems(1) p by (simp add: joined_authors_def split_on_first)
qed

lemma strip_lead: "\<forall>c \<in> set ws. is_space c \<Longrightarrow> strip (ws @ h) = strip h"
  by (simp add: strip_def dropWhile_append2)

lemma Authors_joined:
  assumes "author_groups g others"
  shows "Authors (joined_authors g others) = VAuthors (map strip (g # map snd others))"
proof -
  have nc: "CHR '','' \<notin> set g"
    "\<forall>(ws, h) \<in> set others. CHR '','' \<notin> set ws \<and> CHR '','' \<notin> set h"
    using assms author_group_no_comma comma_class(3)
    unfolding author_groups_def by blast+
  have "map strip (map (\<lambda>(ws, h). ws @ h) others) = map strip (map snd others)"
    using assms by (auto simp: author_groups_def strip_lead)
  then show ?thesis
    by (simp add: Authors_def split_joined[OF nc])
qed

subsection \<open>Custom text\<close>

lemma py_int_t: "py_int I ''t'' = None"
  by (simp add: py_int_def too_many_digits_def int_strip_def is_int_space_def digits_def
      is_digit_def)

lemma make_custom_text:
  assumes "pattern self = Some p" and "stdin w = ''t'' # x # rest"
  shows "make I self nm w =
     (case custom_option self x of
        Inr v \<Rightarrow> (Inr v, asked_custom I self nm w rest)
      | Inl e \<Rightarrow>
          make I self nm
            (print ''could not parse t'' (print (error_text e) (asked_custom I self nm w rest))))"
  using assms
  by (subst make.simps)
     (simp add: input_def py_int_t has_custom_option_def asked_custom_def split: sum.splits)

subsection \<open>The length of a description\<close>

text \<open>
  C7, as the claim states it, fails in two ways. An option whose name alone is longer
  than \<open>DESCRIPTION_MAX_LEN\<close> is described by its full name, here a remote called
  \<^verbatim>\<open>upstream-mirror-of-fork\<close> of 23 characters. And the budget is compared with
  \<^verbatim>\<open>len(value)\<close>, not with the length of the text of the value: an option named
  \<^verbatim>\<open>o\<close> whose value is a list of one string of 20 characters has length 1, fits, and
  is described in 28 characters.
\<close>

theorem describe_exceeds_max:
  "describe bare_interp
      (DecisionOption ''upstream-mirror-of-fork'' (VStr ''https://example.org/x''))
     = Inr ''upstream-mirror-of-fork''
   \<and> \<not> int (length ''upstream-mirror-of-fork'') \<le> DESCRIPTION_MAX_LEN
   \<and> describe bare_interp (DecisionOption ''o'' (VList [VStr ''aaaaaaaaaaaaaaaaaaaa'']))
     = Inr (''o (['' @ [CHR 0x27] @ ''aaaaaaaaaaaaaaaaaaaa'' @ [CHR 0x27] @ ''])'')
   \<and> \<not> int (length (''o (['' @ [CHR 0x27] @ ''aaaaaaaaaaaaaaaaaaaa'' @ [CHR 0x27] @ ''])''))
         \<le> max DESCRIPTION_MAX_LEN (int (length ''o''))"
  by (simp add: describe_def DESCRIPTION_MAX_LEN_def plain_char_def)

text \<open>
  C7, amended: whatever \<^verbatim>\<open>describe\<close> returns for an option starts with the full
  name. Unless the value is a non-empty list, a tuple such as a \<^verbatim>\<open>DecisionOption\<close>,
  or a true value of another builtin type (the values \<open>own_formatted\<close> leaves out),
  the string returned is no longer than the larger of \<open>DESCRIPTION_MAX_LEN\<close> and the
  length of the name, so it stays within \<open>DESCRIPTION_MAX_LEN\<close> whenever the name
  does. When a string value does not fit and the description is more than the name,
  the description is the name, then in parentheses a non-empty prefix and a suffix of
  the same length of the value, joined by two dots.
\<close>

theorem describe_length_bound:
  assumes "describe I (DecisionOption n v) = Inr d"
  shows "prefix n d
       \<and> (own_formatted v \<or> \<not> truthy I v
            \<longrightarrow> int (length d) \<le> max DESCRIPTION_MAX_LEN (int (length n)))
       \<and> (\<forall>s. v = VStr s \<and> d \<noteq> n \<and> 17 - length n < length (preview s) \<longrightarrow>
            1 \<le> (15 - length n) div 2 \<and>
            d = n @ '' ('' @ take ((15 - length n) div 2) s @ ''..''
                  @ drop (length s - (15 - length n) div 2) s @ '')'')"
proof -
  have pre: "prefix n d"
    using assms
    by (auto simp: describe_def Let_def split: if_splits sum.splits)
  have bound: "int (length d) \<le> max DESCRIPTION_MAX_LEN (int (length n))"
    if "own_formatted v \<or> \<not> truthy I v"
    using assms that
    by (cases v) (auto simp: describe_def Let_def DESCRIPTION_MAX_LEN_def slice_to_def
        slice_last_def plain_char_def split: if_splits sum.splits)
  have trunc: "1 \<le> (15 - length n) div 2 \<and>
           d = n @ '' ('' @ take ((15 - length n) div 2) s @ ''..''
                 @ drop (length s - (15 - length n) div 2) s @ '')''"
    if "v = VStr s" "d \<noteq> n" "17 - length n < length (preview s)" for s
  proof -
    have k: "nat ((15 - int (length n)) div 2) = (15 - length n) div 2"
      by (simp add: nat_div_distrib nat_diff_distrib')
    show ?thesis
      using assms(1) that k
      by (auto simp: describe_def Let_def DESCRIPTION_MAX_LEN_def slice_to_def preview_def
        slice_last_def plain_char_def split: if_splits sum.splits)
  qed
  from bound pre trunc show ?thesis by blast
qed

theorem describe_length_bound_witness:
  "describe bare_interp (DecisionOption ''folder_name'' (VStr ''template-python-poetry''))
     = Inr ''folder_name (te..ry)''
   \<and> own_formatted (VStr ''template-python-poetry'')
   \<and> int (length ''folder_name (te..ry)'')
       \<le> max DESCRIPTION_MAX_LEN (int (length ''folder_name''))
   \<and> prefix ''folder_name'' ''folder_name (te..ry)''
   \<and> 17 - length ''folder_name'' < length (preview ''template-python-poetry'')
   \<and> ''folder_name (te..ry)''
       = ''folder_name'' @ '' (''
         @ take ((15 - length ''folder_name'') div 2) ''template-python-poetry'' @ ''..''
         @ drop (length ''template-python-poetry'' - (15 - length ''folder_name'') div 2)
             ''template-python-poetry'' @ '')''"
proof -
  have d: "describe bare_interp
      (DecisionOption ''folder_name'' (VStr ''template-python-poetry''))
     = Inr ''folder_name (te..ry)''"
    by (simp add: describe_def DESCRIPTION_MAX_LEN_def Let_def slice_to_def slice_last_def)
  have o: "own_formatted (VStr ''template-python-poetry'')" by simp
  have p: "17 - length ''folder_name'' < length (preview ''template-python-poetry'')"
    by (simp add: preview_def)
  show ?thesis
    using d o p describe_length_bound[OF d]
    by simp
qed

subsection \<open>Choosing from the menu\<close>

lemma versions_resolver_fields: "options versions_resolver = initial_version_options" "has_custom_option versions_resolver"
  by (simp_all add: versions_resolver_def mk_ConstResolver_def initial_version_options_def has_custom_option_def)

lemma menu_v: "menu bare_interp versions_resolver ''inital_version''
     = [''enter value for inital_version:'',
        ''1: 0.0.1.dev (0.0.1.dev)'',
        ''2: 0.1.0.dev (0.1.0.dev)'',
        ''3: 1.0.0.dev (1.0.0.dev)'',
        ''t: custom text'']"
  by code_simp

lemma py_int_1_3: "py_int I ''1'' = Some 1" "py_int I ''3'' = Some 3"
  by (simp_all add: py_int_def too_many_digits_def int_strip_def is_int_space_def digits_def
      is_digit_def digit_val_def)

text \<open>
  C4 fails on the code: the menu numbers the options from 1 (line 56) and
  \<^verbatim>\<open>make\<close> indexes the list from 0 (line 67). With the three initial versions on
  the menu, entering \<^verbatim>\<open>1\<close> returns the option shown as number 2, and it returns the
  \<^verbatim>\<open>DecisionOption\<close> itself, not its value; entering \<^verbatim>\<open>3\<close> is not accepted, and
  the menu is shown again.
\<close>

theorem make_menu_off_by_one:
  "menu bare_interp versions_resolver ''inital_version''
     = [''enter value for inital_version:'',
        ''1: 0.0.1.dev (0.0.1.dev)'',
        ''2: 0.1.0.dev (0.1.0.dev)'',
        ''3: 1.0.0.dev (1.0.0.dev)'',
        ''t: custom text'']
   \<and> fst (make bare_interp versions_resolver ''inital_version'' \<lparr>stdin = [''1''], stdout = []\<rparr>)
       = Inr (VOption (DecisionOption ''0.1.0.dev'' (VStr ''0.1.0.dev'')))
   \<and> fst (make bare_interp versions_resolver ''inital_version''
            \<lparr>stdin = [''3'', ''1''], stdout = []\<rparr>)
       = Inr (VOption (DecisionOption ''0.1.0.dev'' (VStr ''0.1.0.dev'')))"
proof -
  have a: "fst (make bare_interp versions_resolver ''inital_version'' \<lparr>stdin = [''1''], stdout = out\<rparr>)
       = Inr (VOption (DecisionOption ''0.1.0.dev'' (VStr ''0.1.0.dev'')))" for out
    by (subst make.simps) (simp add: input_def py_int_1_3 versions_resolver_fields initial_version_options_def py_index_def)
  have b: "fst (make bare_interp versions_resolver ''inital_version''
            \<lparr>stdin = [''3'', ''1''], stdout = []\<rparr>)
       = Inr (VOption (DecisionOption ''0.1.0.dev'' (VStr ''0.1.0.dev'')))"
    by (subst make.simps) (simp add: input_def py_int_1_3 versions_resolver_fields initial_version_options_def print_def a)
  show ?thesis using menu_v a b by simp
qed

text \<open>
  C10: when \<^verbatim>\<open>int\<close> reads the line entered as \<open>-k\<close> with \<open>1 \<le> k \<le> n\<close>, where
  \<open>n\<close> is the number of options, \<^verbatim>\<open>make\<close> returns at once the option at position
  \<open>n - k\<close>, counted from the end; for \<open>k = 1\<close> that is the last option. Nothing but
  the menu is written: the line is not reported as unparseable and the menu is not
  shown again. \<open>py_int_minus_show\<close> shows that the decimal text of \<open>-k\<close> is read
  so, and \<open>py_int_separator\<close> that a line with a separator character before the
  sign is not.
\<close>

theorem make_negative_index:
  assumes "py_int I response = Some (- int k)" and "1 \<le> k" and "k \<le> length (options self)"
    and "stdin w = response # rest"
  shows "make I self nm w =
      (Inr (VOption (options self ! (length (options self) - k))), asked I self nm w rest)
    \<and> (k = 1 \<longrightarrow> options self ! (length (options self) - k) = last (options self))"
proof -
  have i: "py_index (options self) (- int k) = Inr (options self ! (length (options self) - k))"
    using assms(2,3) by (simp add: py_index_def nat_diff_distrib' flip: of_nat_diff)
  have l: "options self \<noteq> []" using assms(2,3) by auto
  show ?thesis
    using assms i l
    by (subst make.simps) (simp add: input_def last_conv_nth asked_def)
qed

theorem make_negative_index_witness:
  "py_int bare_interp ''-1'' = Some (- int 1) \<and> (1::nat) \<le> 1
   \<and> 1 \<le> length (options versions_resolver)
   \<and> make bare_interp versions_resolver ''inital_version'' \<lparr>stdin = [''-1''], stdout = []\<rparr>
       = (Inr (VOption (DecisionOption ''1.0.0.dev'' (VStr ''1.0.0.dev''))),
          asked bare_interp versions_resolver ''inital_version''
            \<lparr>stdin = [''-1''], stdout = []\<rparr> [])"
proof -
  have p: "py_int bare_interp ''-1'' = Some (- int 1)"
    by (simp add: py_int_def too_many_digits_def int_strip_def is_int_space_def digits_def
        is_digit_def digit_val_def)
  have l: "1 \<le> length (options versions_resolver)"
    by (simp add: versions_resolver_fields initial_version_options_def)
  have s: "stdin \<lparr>stdin = [''-1''], stdout = []\<rparr> = ''-1'' # []" by simp
  show ?thesis
    using p l make_negative_index[OF p order_refl l s, of "''inital_version''"]
    by (simp add: versions_resolver_fields initial_version_options_def)
qed

subsection \<open>Free text for the year and the authors\<close>

text \<open>
  C8: for a resolver with the pattern of the \<^verbatim>\<open>year\<close> decision, whatever its options,
  choosing \<^verbatim>\<open>t\<close> and entering the text \<open>x\<close> is accepted, and \<^verbatim>\<open>make\<close> returns
  \<open>x\<close>, exactly when \<open>x\<close> is four decimal digits. Any other text is reported and
  \<^verbatim>\<open>make\<close> starts again on the rest of the input; \<^verbatim>\<open>99\<close> and \<^verbatim>\<open>20x1\<close> are
  such texts.
\<close>

theorem year_custom_text:
  assumes "cls self = ConstResolver" and "pattern self = Some year_pattern"
    and "stdin w = ''t'' # x # rest"
  shows "if length x = 4 \<and> (\<forall>c \<in> set x. is_digit c)
         then make I self nm w = (Inr (VStr x), asked_custom I self nm w rest)
         else make I self nm w =
                make I self nm (rejected (pattern_description self) (asked_custom I self nm w rest))"
  using assms(1,2) make_custom_text[OF assms(2,3), of I nm] year_lang[of x]
  by (simp add: custom_option_def regex_custom_option_def fullmatch_lang rejected_def)

theorem year_custom_text_witness:
  "make bare_interp year_resolver ''year'' \<lparr>stdin = [''t'', ''2026''], stdout = []\<rparr>
     = (Inr (VStr ''2026''),
        asked_custom bare_interp year_resolver ''year'' \<lparr>stdin = [''t'', ''2026''], stdout = []\<rparr> [])
   \<and> make bare_interp year_resolver ''year'' \<lparr>stdin = [''t'', ''99''], stdout = []\<rparr>
     = make bare_interp year_resolver ''year''
         (rejected ''pattern''
           (asked_custom bare_interp year_resolver ''year'' \<lparr>stdin = [''t'', ''99''], stdout = []\<rparr> []))
   \<and> make bare_interp year_resolver ''year'' \<lparr>stdin = [''t'', ''20x1''], stdout = []\<rparr>
     = make bare_interp year_resolver ''year''
         (rejected ''pattern''
           (asked_custom bare_interp year_resolver ''year'' \<lparr>stdin = [''t'', ''20x1''], stdout = []\<rparr> []))"
proof -
  have c: "cls year_resolver = ConstResolver" and p: "pattern year_resolver = Some year_pattern"
    and d: "pattern_description year_resolver = ''pattern''"
    by (simp_all add: year_resolver_def mk_ConstResolver_def)
  have x: "CHR ''x'' \<notin> {c. is_digit c}" by (simp add: is_digit_def)
  show ?thesis
    using year_custom_text[OF c p, of "\<lparr>stdin = [''t'', ''2026''], stdout = []\<rparr>" "''2026''" "[]" bare_interp "''year''"]
      year_custom_text[OF c p, of "\<lparr>stdin = [''t'', ''99''], stdout = []\<rparr>" "''99''" "[]" bare_interp "''year''"]
      year_custom_text[OF c p, of "\<lparr>stdin = [''t'', ''20x1''], stdout = []\<rparr>" "''20x1''" "[]" bare_interp "''year''"]
      d x
    by (simp add: is_digit_def)
qed

lemma ann_bo: "fullmatch authors_pattern ''Ann Lee <ann@x.com>, Bo <bo@y.org>''"
  by code_simp

lemma ann: "\<not> fullmatch authors_pattern ''Ann Lee''"
  by code_simp

lemma ann_bo_parts: "Authors ''Ann Lee <ann@x.com>, Bo <bo@y.org>'' = VAuthors [''Ann Lee <ann@x.com>'', ''Bo <bo@y.org>'']"
  by code_simp

lemma ann_group: "fullmatch author_pattern ''Ann Lee <ann@x.com>''"
  by code_simp

lemma bo_group: "fullmatch author_pattern ''Bo <bo@y.org>''"
  by code_simp

text \<open>
  C9: for a resolver of class \<^verbatim>\<open>AuthorsResolver\<close>, choosing \<^verbatim>\<open>t\<close> and entering the
  text \<open>x\<close> is accepted exactly when \<open>x\<close> is one or more groups
  \<^verbatim>\<open>Name <email>\<close> separated by commas; the value returned then has one entry per
  group, the group without surrounding white space. Any other text is reported and
  \<^verbatim>\<open>make\<close> starts again. \<^verbatim>\<open>Ann Lee <ann@x.com>, Bo <bo@y.org>\<close> is accepted with two
  entries, \<^verbatim>\<open>Ann Lee\<close> is not accepted.
\<close>

theorem authors_custom_text:
  assumes "cls self = AuthorsResolver" and "pattern self = Some authors_pattern"
    and "stdin w = ''t'' # x # rest"
  shows "(if author_list_text x
          then make I self nm w = (Inr (Authors x), asked_custom I self nm w rest)
          else make I self nm w =
                 make I self nm (rejected (pattern_description self) (asked_custom I self nm w rest)))
       \<and> (\<forall>g others. author_groups g others \<and> x = joined_authors g others \<longrightarrow>
             Authors x = VAuthors (map strip (g # map snd others)))"
  using assms(1,2) make_custom_text[OF assms(2,3), of I nm] authors_lang[of x] Authors_joined
  by (simp add: custom_option_def regex_custom_option_def fullmatch_lang rejected_def)

theorem authors_custom_text_witness:
  "make bare_interp mk_AuthorsResolver ''authors''
       \<lparr>stdin = [''t'', ''Ann Lee <ann@x.com>, Bo <bo@y.org>''], stdout = []\<rparr>
     = (Inr (VAuthors [''Ann Lee <ann@x.com>'', ''Bo <bo@y.org>'']),
        asked_custom bare_interp mk_AuthorsResolver ''authors''
          \<lparr>stdin = [''t'', ''Ann Lee <ann@x.com>, Bo <bo@y.org>''], stdout = []\<rparr> [])
   \<and> make bare_interp mk_AuthorsResolver ''authors'' \<lparr>stdin = [''t'', ''Ann Lee''], stdout = []\<rparr>
     = make bare_interp mk_AuthorsResolver ''authors''
         (rejected ''name <email>[, name <email>...]''
           (asked_custom bare_interp mk_AuthorsResolver ''authors''
              \<lparr>stdin = [''t'', ''Ann Lee''], stdout = []\<rparr> []))
   \<and> author_groups ''Ann Lee <ann@x.com>'' [('' '', ''Bo <bo@y.org>'')]
   \<and> ''Ann Lee <ann@x.com>, Bo <bo@y.org>''
       = joined_authors ''Ann Lee <ann@x.com>'' [('' '', ''Bo <bo@y.org>'')]
   \<and> Authors ''Ann Lee <ann@x.com>, Bo <bo@y.org>''
       = VAuthors (map strip [''Ann Lee <ann@x.com>'', ''Bo <bo@y.org>''])"
proof -
  have c: "cls mk_AuthorsResolver = AuthorsResolver"
    and p: "pattern mk_AuthorsResolver = Some authors_pattern"
    and d: "pattern_description mk_AuthorsResolver = ''name <email>[, name <email>...]''"
    by (simp_all add: mk_AuthorsResolver_def)
  have yes: "author_list_text ''Ann Lee <ann@x.com>, Bo <bo@y.org>''"
    using ann_bo fullmatch_lang[of authors_pattern] authors_lang by blast
  have no: "\<not> author_list_text ''Ann Lee''"
    using ann fullmatch_lang[of authors_pattern] authors_lang by blast
  have g: "author_groups ''Ann Lee <ann@x.com>'' [('' '', ''Bo <bo@y.org>'')]"
    using ann_group bo_group
    by (simp add: fullmatch_lang author_lang author_groups_def is_space_def)
  have j: "''Ann Lee <ann@x.com>, Bo <bo@y.org>''
       = joined_authors ''Ann Lee <ann@x.com>'' [('' '', ''Bo <bo@y.org>'')]"
    by (simp add: joined_authors_def)
  note a = authors_custom_text[OF c p, of
      "\<lparr>stdin = [''t'', ''Ann Lee <ann@x.com>, Bo <bo@y.org>''], stdout = []\<rparr>"
      "''Ann Lee <ann@x.com>, Bo <bo@y.org>''" "[]" bare_interp "''authors''"]
  note b = authors_custom_text[OF c p, of
      "\<lparr>stdin = [''t'', ''Ann Lee''], stdout = []\<rparr>" "''Ann Lee''" "[]" bare_interp "''authors''"]
  have 1: "make bare_interp mk_AuthorsResolver ''authors''
       \<lparr>stdin = [''t'', ''Ann Lee <ann@x.com>, Bo <bo@y.org>''], stdout = []\<rparr>
     = (Inr (Authors ''Ann Lee <ann@x.com>, Bo <bo@y.org>''),
        asked_custom bare_interp mk_AuthorsResolver ''authors''
          \<lparr>stdin = [''t'', ''Ann Lee <ann@x.com>, Bo <bo@y.org>''], stdout = []\<rparr> [])"
    using a yes by simp
  have 2: "Authors ''Ann Lee <ann@x.com>, Bo <bo@y.org>''
       = VAuthors (map strip [''Ann Lee <ann@x.com>'', ''Bo <bo@y.org>''])"
    using a g j by force
  have 3: "make bare_interp mk_AuthorsResolver ''authors'' \<lparr>stdin = [''t'', ''Ann Lee''], stdout = []\<rparr>
     = make bare_interp mk_AuthorsResolver ''authors''
         (rejected ''name <email>[, name <email>...]''
           (asked_custom bare_interp mk_AuthorsResolver ''authors''
              \<lparr>stdin = [''t'', ''Ann Lee''], stdout = []\<rparr> []))"
    using b no d by simp
  show ?thesis
    using 1 2 3 g j ann_bo_parts by (simp only:)
qed

subsection \<open>Evaluating a placeholder\<close>

lemma partition_bang_bare:
  assumes "CHR ''!'' \<notin> set x"
  shows "partition_bang x = (x, [], [])"
proof -
  have "dropWhile (\<lambda>c. c \<noteq> CHR ''!'') x = []"
    using assms by (induction x) auto
  then show ?thesis unfolding partition_bang_def by (simp only: list.case)
qed

text \<open>
  C2: for every dictionary of decisions and every body without \<^verbatim>\<open>!\<close>, \<^verbatim>\<open>repl\<close>
  returns the text \<^verbatim>\<open>str(v)\<close> of the value \<open>v\<close> stored under that name, and raises
  \<^verbatim>\<open>KeyError\<close> with the name when the dictionary has no such key; the console and
  the files are untouched.
\<close>

theorem repl_bare_name:
  assumes "CHR ''!'' \<notin> set x"
  shows "repl I made_decisions x w fs =
    (case map_of made_decisions x of
       None \<Rightarrow> (Inl (KeyError x), w, fs)
     | Some v \<Rightarrow> (Inr (py_str I v), w, fs))"
  using partition_bang_bare[OF assms]
  by (simp add: repl_def inner.simps split: option.splits)

theorem repl_bare_name_witness:
  "CHR ''!'' \<notin> set ''package''
   \<and> repl bare_interp widgets ''package'' no_console two_sources
       = (Inr ''widgets'', no_console, two_sources)
   \<and> CHR ''!'' \<notin> set ''year''
   \<and> repl bare_interp widgets ''year'' no_console two_sources
       = (Inl (KeyError ''year''), no_console, two_sources)"
proof -
  have a: "CHR ''!'' \<notin> set ''package''" and b: "CHR ''!'' \<notin> set ''year''" by simp_all
  show ?thesis
    using a b repl_bare_name[OF a, of bare_interp widgets no_console two_sources]
      repl_bare_name[OF b, of bare_interp widgets no_console two_sources]
    by (simp add: widgets_def)
qed

lemma partition_bang_examples:
  "partition_bang ''py_versions!preferred'' = (''py_versions'', ''!'', ''preferred'')"
  "partition_bang ''py_versions'' = (''py_versions'', [], [])"
  by (simp_all add: partition_bang_def)

text \<open>
  C3 fails on the code: when the value has no attribute named by the accessor, the
  callable that \<^verbatim>\<open>eval\<close> yields is called with \<^verbatim>\<open>evaled_second\<close>, which is
  \<^verbatim>\<open>None\<close> at that point (line 257), not with the value of the expression. With
  \<^verbatim>\<open>py_versions\<close> resolved to the custom text \<^verbatim>\<open>3.8\<close>, the placeholder
  \<^verbatim>\<open>py_versions!preferred\<close> reaches the closure \<^verbatim>\<open>preferred\<close> of line 305, which
  raises \<^verbatim>\<open>TypeError\<close> for an argument that is not a string; called with the value,
  as the claim says, it asks the user and returns the answer.
\<close>

theorem repl_fallback_passes_None:
  "repl bare_interp [(''py_versions'', VStr ''3.8'')] ''py_versions!preferred''
       \<lparr>stdin = [''3.9''], stdout = []\<rparr> two_sources
     = (Inl (TypeError (''<class '' @ [CHR 0x27] @ ''NoneType'' @ [CHR 0x27] @ ''>'')),
        \<lparr>stdin = [''3.9''], stdout = []\<rparr>, two_sources)
   \<and> call bare_interp (VHotswap ''preferred'') [VStr ''3.8'']
         \<lparr>stdin = [''3.9''], stdout = []\<rparr> two_sources
     = (Inr (VStr ''3.9''),
        \<lparr>stdin = [],
         stdout = [''enter result for custom text 3.8 with method preferred:'' @ [CHR 0x0A]]\<rparr>,
        two_sources)"
proof -
  have i: "inner bare_interp [(''py_versions'', VStr ''3.8'')] ''py_versions''
       \<lparr>stdin = [''3.9''], stdout = []\<rparr> fs
     = (Inr (VStr ''3.8''), \<lparr>stdin = [''3.9''], stdout = []\<rparr>, fs)" for fs
    by (subst inner.simps) (simp add: partition_bang_examples)
  have g: "getattr_default bare_interp (VStr ''3.8'') ''preferred'' = VNone"
    by (simp add: getattr_default_def bare_interp_def)
  have e: "py_eval bare_interp md locals ''preferred'' w fs = (Inr (VHotswap ''preferred''), w, fs)"
    if "map_of locals ''preferred'' = None" for md locals w fs
    using that by (simp add: py_eval_def module_globals_def)
  have "inner bare_interp [(''py_versions'', VStr ''3.8'')] ''py_versions!preferred''
       \<lparr>stdin = [''3.9''], stdout = []\<rparr> two_sources
     = (Inl (TypeError (''<class '' @ [CHR 0x27] @ ''NoneType'' @ [CHR 0x27] @ ''>'')),
        \<lparr>stdin = [''3.9''], stdout = []\<rparr>, two_sources)"
    by (subst inner.simps) (simp add: partition_bang_examples i g e)
  then show ?thesis
    by (simp add: repl_def input_def)
qed

subsection \<open>Interpreters that write no file\<close>

lemma call_pure:
  assumes "file_pure I" and "call I f args w fs = (r, w', fs')"
  shows "fs' = fs"
proof -
  have "file_pure I \<Longrightarrow> snd (snd (call I f args w fs)) = fs"
    by (induction I f args w fs rule: call.induct)
       (auto simp: file_pure_def split: val.splits prod.splits sum.splits)
  with assms show ?thesis by simp
qed

lemma py_eval_pure:
  assumes "file_pure I" and "py_eval I md locals code w fs = (r, w', fs')"
  shows "fs' = fs"
proof -
  have "snd (snd (ext_eval I md locals code w fs)) = fs"
    using assms(1) by (simp add: file_pure_def)
  with assms(2) show ?thesis
    by (auto simp: py_eval_def split: option.splits)
qed

lemma inner_pure:
  "file_pure I \<Longrightarrow> inner I md x w fs = (r, w', fs') \<Longrightarrow> fs' = fs"
proof (induction I md x w fs arbitrary: r w' fs' rule: inner.induct)
  case (1 I md x w fs)
  note pure = "1.prems"(1) and run = "1.prems"(2)
  obtain first sep second where p: "partition_bang x = (first, sep, second)"
    by (cases "partition_bang x") auto
  show ?case
  proof (cases "second = []")
    case True
    with run p show ?thesis
      by (subst (asm) inner.simps) (auto split: option.splits)
  next
    case False
    obtain r1 w1 fs1 where i: "inner I md first w fs = (r1, w1, fs1)"
      by (cases "inner I md first w fs") auto
    have f1: "fs1 = fs"
      using "1.IH"[OF p[symmetric] refl False pure i] .
    from run p False i f1 show ?thesis
      by (subst (asm) inner.simps)
         (auto simp: Let_def split: sum.splits prod.splits if_splits
            dest: call_pure[OF pure] py_eval_pure[OF pure])
  qed
qed

lemma repl_pure:
  assumes "file_pure I" and "repl I md g w fs = (r, w', fs')"
  shows "fs' = fs"
  using assms(2) inner_pure[OF assms(1), of md g w fs]
  by (auto simp: repl_def split: prod.splits sum.splits)

lemma pattern_sub_pure:
  "file_pure I \<Longrightarrow> pattern_sub I md t w fs = (r, w', fs') \<Longrightarrow> fs' = fs"
proof (induction I md t w fs arbitrary: r w' fs' rule: pattern_sub.induct)
  case (1 I md t w fs)
  note pure = "1.prems"(1) and run = "1.prems"(2)
  show ?case
  proof (cases "find_token t")
    case None
    with run show ?thesis by (subst (asm) pattern_sub.simps) simp
  next
    case (Some m)
    obtain before group1 after where m: "m = (before, group1, after)" by (cases m)
    obtain r1 w1 fs1 where rp: "repl I md group1 w fs = (r1, w1, fs1)"
      by (cases "repl I md group1 w fs") auto
    have f1: "fs1 = fs"
      using repl_pure[OF pure rp] .
    show ?thesis
    proof (cases r1)
      case (Inl e)
      with run Some m rp f1 show ?thesis
        by (subst (asm) pattern_sub.simps) simp
    next
      case (Inr replacement)
      obtain r2 w2 fs2 where ps: "pattern_sub I md after w1 fs1 = (r2, w2, fs2)"
        by (cases "pattern_sub I md after w1 fs1") auto
      have "fs2 = fs1"
        using "1.IH"[OF Some m[symmetric] refl rp[symmetric] Inr refl pure ps] .
      with run Some m rp f1 Inr ps show ?thesis
        by (subst (asm) pattern_sub.simps) (auto split: sum.splits)
    qed
  qed
qed

lemma pure_quiet: "file_pure I \<Longrightarrow> quiet_sub I md t"
  unfolding quiet_sub_def
  by (metis pattern_sub_pure prod.collapse)

lemma bare_pure: "file_pure bare_interp"
  by (simp add: file_pure_def bare_interp_def)

subsection \<open>The rewrite pass\<close>

lemma rfind_dot_bkp: "rfind_dot (stem @ ''.bkp'') = Some (length stem)"
  by (simp add: rfind_dot_def Let_def)

lemma name_suffix_bkp: "stem \<noteq> [] \<Longrightarrow> name_suffix (stem @ ''.bkp'') = ''.bkp''"
  by (simp add: name_suffix_def rfind_dot_bkp)

lemma name_suffix_shorter: "nm \<noteq> [] \<Longrightarrow> length (name_suffix nm) < length nm"
  by (auto simp: name_suffix_def split: option.splits)

lemma suffix_with_suffix:
  assumes "with_suffix p ''.bkp'' = Inr b"
  shows "suffix b = ''.bkp''"
proof -
  let ?nm = "path_name p"
  from assms have nm: "?nm \<noteq> []"
    and b: "b = butlast p @ [take (length ?nm - length (suffix p)) ?nm @ ''.bkp'']"
    by (auto simp: with_suffix_def Let_def split: if_splits)
  have "take (length ?nm - length (suffix p)) ?nm \<noteq> []"
    using nm name_suffix_shorter[OF nm] by (simp add: suffix_def)
  then show ?thesis
    unfolding b suffix_def path_name_def by (simp add: name_suffix_bkp)
qed

lemma pattern_sub_plain: "find_token t = None \<Longrightarrow> pattern_sub I md t w fs = (Inr t, w, fs)"
  by (subst pattern_sub.simps) simp

lemma quiet_subD:
  assumes "quiet_sub I md t" and "pattern_sub I md t w fs = (r, w', fs')"
  shows "fs' = fs"
proof -
  from assms(1) have "snd (snd (pattern_sub I md t w fs)) = fs"
    unfolding quiet_sub_def by blast
  with assms(2) show ?thesis by simp
qed

lemma rewrite_file_effect:
  assumes "rewrite_file I bk md f w fs = (r, w', fs')"
    and "scanned f \<longrightarrow> (\<forall>t. fs f = Some (Text t) \<longrightarrow> quiet_sub I md t)"
  shows "fs' = fs \<or>
    (\<exists>b c. bk \<and> scanned f \<and> fs f = Some (Text c) \<and> find_token c \<noteq> None
        \<and> with_suffix f ''.bkp'' = Inr b \<and> fs b \<noteq> Some Dir \<and> fs' = fs(b \<mapsto> Text c))"
proof (cases "scanned f")
  case False
  with assms(1) show ?thesis
    by (auto simp: rewrite_file_def scanned_def split: if_splits)
next
  case True
  show ?thesis
  proof (cases "fs f")
    case None
    with assms(1) True show ?thesis
      by (auto simp: rewrite_file_def scanned_def read_text_def)
  next
    case (Some nd)
    show ?thesis
    proof (cases nd)
      case (Text c)
      with Some assms(2) True have q: "quiet_sub I md c" by simp
      from assms(1) True Some Text show ?thesis
        by (auto simp: rewrite_file_def scanned_def read_text_def write_text_def
            split: if_splits sum.splits option.splits node.splits prod.splits
            dest: quiet_subD[OF q])
    next
      case (Binary bytes)
      with assms(1) True Some show ?thesis
        by (auto simp: rewrite_file_def scanned_def read_text_def)
    next
      case Dir
      with assms(1) True Some show ?thesis
        by (auto simp: rewrite_file_def scanned_def read_text_def)
    qed
  qed
qed

lemma rewrite_file_backup:
  assumes "scanned f" and "fs f = Some (Text c)" and "find_token c \<noteq> None"
    and "with_suffix f ''.bkp'' = Inr b" and "fs b \<noteq> Some Dir" and "quiet_sub I md c"
  shows "snd (snd (rewrite_file I True md f w fs)) = fs(b \<mapsto> Text c)"
  using assms(1-5)
  by (auto simp: rewrite_file_def scanned_def read_text_def write_text_def
      split: if_splits sum.splits option.splits node.splits prod.splits
      dest: quiet_subD[OF assms(6)])

lemma rewrite_file_no_placeholder:
  assumes "fs f = Some (Text c)" and "find_token c = None"
  shows "rewrite_file I bk md f w fs = (None, w, fs)"
  using assms by (simp add: rewrite_file_def read_text_def pattern_sub_plain)

lemma rewrite_files_append:
  "rewrite_files I bk md (xs @ ys) w fs =
    (case rewrite_files I bk md xs w fs of
       (Some e, w1, fs1) \<Rightarrow> (Some e, w1, fs1)
     | (None, w1, fs1) \<Rightarrow> rewrite_files I bk md ys w1 fs1)"
  by (induction xs arbitrary: w fs) (auto split: prod.splits option.splits)

lemma rewrite_file_keeps:
  assumes "rewrite_file I bk md f w fs = (r, w', fs')"
    and "scanned f \<longrightarrow> (\<forall>t. fs f = Some (Text t) \<longrightarrow> quiet_sub I md t)"
  shows "(suffix q \<noteq> ''.bkp'' \<longrightarrow> fs' q = fs q) \<and> (fs' q = Some Dir \<longleftrightarrow> fs q = Some Dir)
       \<and> (\<not> bk \<longrightarrow> fs' = fs)"
  using rewrite_file_effect[OF assms] suffix_with_suffix by (auto split: if_splits)

lemma rewrite_files_keeps:
  assumes "file_pure I" and "rewrite_files I bk md entries w fs = (r, w', fs')"
  shows "(suffix q \<noteq> ''.bkp'' \<longrightarrow> fs' q = fs q) \<and> (fs' q = Some Dir \<longleftrightarrow> fs q = Some Dir)
       \<and> (\<not> bk \<longrightarrow> fs' = fs)"
  using assms(2)
proof (induction entries arbitrary: w fs)
  case Nil
  then show ?case by simp
next
  case (Cons f entries)
  obtain r1 w1 fs1 where s: "rewrite_file I bk md f w fs = (r1, w1, fs1)"
    by (cases "rewrite_file I bk md f w fs") auto
  have k: "(suffix q \<noteq> ''.bkp'' \<longrightarrow> fs1 q = fs q) \<and> (fs1 q = Some Dir \<longleftrightarrow> fs q = Some Dir)
       \<and> (\<not> bk \<longrightarrow> fs1 = fs)"
    using rewrite_file_keeps[OF s, of q] pure_quiet[OF assms(1)] by blast
  show ?case
  proof (cases r1)
    case None
    with Cons.prems s have "rewrite_files I bk md entries w1 fs1 = (r, w', fs')" by simp
    from Cons.IH[OF this] k show ?thesis by auto
  next
    case (Some e)
    with Cons.prems s have "fs' = fs1" by simp
    with k show ?thesis by simp
  qed
qed

lemma rewrite_files_holds:
  assumes "rewrite_files I True md post w fs1 = (r, w', fs')"
    and "fs1 b = Some (Text c)"
    and "\<forall>q. suffix q \<noteq> ''.bkp'' \<longrightarrow> fs1 q = fs q"
    and "\<forall>g \<in> set post. scanned g \<and> has_placeholder fs g \<longrightarrow> with_suffix g ''.bkp'' \<noteq> Inr b"
    and "\<forall>g \<in> set post. scanned g \<longrightarrow> (\<forall>t. fs g = Some (Text t) \<longrightarrow> quiet_sub I md t)"
  shows "fs' b = Some (Text c)"
  using assms
proof (induction post arbitrary: w fs1)
  case Nil
  then show ?case by simp
next
  case (Cons g post)
  obtain r1 w1 fs2 where s: "rewrite_file I True md g w fs1 = (r1, w1, fs2)"
    by (cases "rewrite_file I True md g w fs1") auto
  have q: "scanned g \<longrightarrow> (\<forall>t. fs1 g = Some (Text t) \<longrightarrow> quiet_sub I md t)"
    using Cons.prems(3,5) by (simp add: scanned_def)
  have b: "fs2 b = Some (Text c)"
  proof -
    from rewrite_file_effect[OF s q] consider "fs2 = fs1"
      | b' c' where "scanned g" "fs1 g = Some (Text c')" "find_token c' \<noteq> None"
          "with_suffix g ''.bkp'' = Inr b'" "fs2 = fs1(b' \<mapsto> Text c')"
      by blast
    then show ?thesis
    proof cases
      case 1
      with Cons.prems(2) show ?thesis by simp
    next
      case 2
      from 2(1,2) Cons.prems(3) have "fs g = Some (Text c')" by (simp add: scanned_def)
      with 2(3) have "has_placeholder fs g" by (simp add: has_placeholder_def)
      with 2(1,4) Cons.prems(4) have "b' \<noteq> b" by auto
      with 2(5) Cons.prems(2) show ?thesis by simp
    qed
  qed
  have agree: "\<forall>q. suffix q \<noteq> ''.bkp'' \<longrightarrow> fs2 q = fs q"
    using rewrite_file_keeps[OF s q] Cons.prems(3) by simp
  show ?case
  proof (cases r1)
    case None
    with Cons.prems(1) s have "rewrite_files I True md post w1 fs2 = (r, w', fs')" by simp
    from Cons.IH[OF this b agree] Cons.prems(4,5) show ?thesis by simp
  next
    case (Some e)
    with Cons.prems(1) s have "fs' = fs2" by simp
    with b show ?thesis by simp
  qed
qed

lemma suffix_examples:
  "suffix [''a.txt''] = ''.txt''" "suffix [''a.py''] = ''.py''" "suffix [''b.py''] = ''.py''"
  "suffix [''c.txt''] = ''.txt''"
  "path_name [''a.txt''] = ''a.txt''" "path_name [''a.py''] = ''a.py''"
  "path_name [''b.py''] = ''b.py''" "path_name [''c.txt''] = ''c.txt''"
  by (simp_all add: suffix_def path_name_def name_suffix_def rfind_dot_def)

lemma with_suffix_examples:
  "with_suffix [''a.txt''] ''.bkp'' = Inr [''a.bkp'']"
  "with_suffix [''a.py''] ''.bkp'' = Inr [''a.bkp'']"
  "with_suffix [''b.py''] ''.bkp'' = Inr [''b.bkp'']"
  by (simp_all add: with_suffix_def suffix_examples Let_def)

lemma find_token_examples:
  "find_token ''<$package$>'' = Some ([], ''package'', [])"
  "find_token ''x = <$package$>'' = Some (''x = '', ''package'', [])"
  "find_token ''<$ package $>'' = Some ([], '' package '', [])"
  "find_token ''plain'' = None"
  by simp_all

lemma repl_examples:
  "repl bare_interp widgets ''package'' w fs = (Inr ''widgets'', w, fs)"
  "repl bare_interp widgets '' package '' w fs = (Inl (KeyError '' package ''), w, fs)"
  by (simp_all add: repl_def inner.simps partition_bang_def widgets_def)

lemma pattern_sub_examples:
  "pattern_sub bare_interp widgets ''<$package$>'' w fs = (Inr ''widgets'', w, fs)"
  "pattern_sub bare_interp widgets ''x = <$package$>'' w fs = (Inr ''x = widgets'', w, fs)"
  "pattern_sub bare_interp widgets ''<$ package $>'' w fs
     = (Inl (KeyError '' package ''), w, fs)"
  by (simp_all add: pattern_sub.simps[of _ _ "_ # _"] pattern_sub.simps[of _ _ "[]"]
        find_token_examples repl_examples)

text \<open>
  C1 fails on the code: line 277 evaluates \<^verbatim>\<open>pattern.sub(repl, original)\<close> and drops the
  result, so no file is written back. For a file holding \<^verbatim>\<open><$ package $>\<close> with the
  package resolved to \<^verbatim>\<open>widgets\<close>, the group of the match is \<^verbatim>\<open>package\<close> with a space on
  each side, the lookup raises \<^verbatim>\<open>KeyError\<close> and the run ends with the file unchanged.
  For \<^verbatim>\<open><$package$>\<close> the substitution gives \<^verbatim>\<open>widgets\<close>, the run ends normally, and
  the file still holds the placeholder.
\<close>

theorem rewrite_discards_result:
  "rewrite_files bare_interp False widgets [[''a.txt'']] no_console
       (Map.empty([''a.txt''] \<mapsto> Text ''<$ package $>''))
     = (Some (KeyError '' package ''), no_console,
        Map.empty([''a.txt''] \<mapsto> Text ''<$ package $>''))
   \<and> pattern_sub bare_interp widgets ''<$package$>'' no_console
         (Map.empty([''a.txt''] \<mapsto> Text ''<$package$>''))
     = (Inr ''widgets'', no_console, Map.empty([''a.txt''] \<mapsto> Text ''<$package$>''))
   \<and> rewrite_files bare_interp False widgets [[''a.txt'']] no_console
       (Map.empty([''a.txt''] \<mapsto> Text ''<$package$>''))
     = (None, no_console, Map.empty([''a.txt''] \<mapsto> Text ''<$package$>''))"
  by (simp add: rewrite_file_def suffix_examples read_text_def pattern_sub_examples)

lemma opening_fields:
  "ext_attr opening_interp v a = None"
  "ext_eval opening_interp md locals code w fs =
     (if code = write_snippet then (Inr (VExt 0), w, fs([''a.bkp''] \<mapsto> Text []))
      else (Inl (NameError code), w, fs))"
  "ext_call opening_interp (VExt 0) [VNone] w fs
     = (Inl (TypeError ''write() argument must be str, not None''), w, fs)"
  by (simp_all add: opening_interp_def bare_interp_def)

lemma no_attr: "getattr_default opening_interp (VStr s) a = VNone"
  by (simp add: getattr_default_def opening_fields)

lemma snippet_inner:
  "inner opening_interp widgets (''package!'' @ write_snippet) w fs
     = (Inl (TypeError ''write() argument must be str, not None''), w,
        fs([''a.bkp''] \<mapsto> Text []))"
proof -
  have i: "inner opening_interp widgets ''package'' w fs = (Inr (VStr ''widgets''), w, fs)"
    by (subst inner.simps) (simp add: partition_bang_def widgets_def)
  have e: "py_eval opening_interp md
             [(''x'', x), (''first'', f), (''_'', u), (''second'', s), (''evaled_first'', a),
              (''evaled_second'', b)] write_snippet w fs
           = (Inr (VExt 0), w, fs([''a.bkp''] \<mapsto> Text []))" for md x f u s a b
    by (simp add: py_eval_def module_globals_def opening_fields) (simp add: write_snippet_def)
  have p: "partition_bang (''package!'' @ write_snippet) = (''package'', ''!'', write_snippet)"
    by (simp add: partition_bang_def)
  have n: "write_snippet \<noteq> []" by (simp add: write_snippet_def)
  show ?thesis
    by (subst inner.simps) (simp only: p, simp add: n i no_attr e opening_fields)
qed

lemma snippet_sub:
  "pattern_sub opening_interp widgets (''<$package!'' @ write_snippet @ ''$>'') w fs
     = (Inl (TypeError ''write() argument must be str, not None''), w,
        fs([''a.bkp''] \<mapsto> Text []))"
  unfolding write_snippet_def
  by (subst pattern_sub.simps)
     (simp add: repl_def snippet_inner[unfolded write_snippet_def, simplified])

text \<open>
  C6, as the claim states it, fails in two ways. The backup of \<^verbatim>\<open>a.txt\<close> and that of
  \<^verbatim>\<open>a.py\<close> are the same path \<^verbatim>\<open>a.bkp\<close>, since \<^verbatim>\<open>with_suffix\<close> replaces the suffix:
  when both hold a placeholder, the backup holds at the end the text of the file
  scanned last, not that of \<^verbatim>\<open>a.txt\<close>. And the accessor of a placeholder is evaluated
  as code after the backup is written: a file whose placeholder opens its own backup
  for writing leaves the backup empty.
\<close>

theorem backup_overwritten:
  "scanned [''a.txt''] \<and> has_placeholder two_sources [''a.txt'']
   \<and> two_sources [''a.txt''] = Some (Text ''<$package$>'')
   \<and> with_suffix [''a.txt''] ''.bkp'' = Inr [''a.bkp'']
   \<and> fst (rewrite_files bare_interp True widgets [[''a.txt''], [''a.py'']] no_console two_sources)
       = None
   \<and> snd (snd (rewrite_files bare_interp True widgets [[''a.txt''], [''a.py'']] no_console
                 two_sources)) [''a.bkp'']
       = Some (Text ''x = <$package$>'')
   \<and> snd (snd (rewrite_files bare_interp True widgets [[''a.txt''], [''a.py'']] no_console
                 two_sources)) [''a.bkp'']
       \<noteq> two_sources [''a.txt'']
   \<and> has_placeholder one_source [''a.txt'']
   \<and> snd (snd (rewrite_files opening_interp True widgets [[''a.txt'']] no_console one_source))
         [''a.bkp'']
       = Some (Text [])
   \<and> snd (snd (rewrite_files opening_interp True widgets [[''a.txt'']] no_console one_source))
         [''a.bkp'']
       \<noteq> one_source [''a.txt'']"
proof -
  have 1: "scanned [''a.txt''] \<and> has_placeholder two_sources [''a.txt'']
   \<and> two_sources [''a.txt''] = Some (Text ''<$package$>'')
   \<and> with_suffix [''a.txt''] ''.bkp'' = Inr [''a.bkp'']
   \<and> fst (rewrite_files bare_interp True widgets [[''a.txt''], [''a.py'']] no_console two_sources)
       = None
   \<and> snd (snd (rewrite_files bare_interp True widgets [[''a.txt''], [''a.py'']] no_console
                 two_sources)) [''a.bkp'']
       = Some (Text ''x = <$package$>'')
   \<and> snd (snd (rewrite_files bare_interp True widgets [[''a.txt''], [''a.py'']] no_console
                 two_sources)) [''a.bkp'']
       \<noteq> two_sources [''a.txt'']"
    by (simp add: scanned_def has_placeholder_def two_sources_def suffix_examples
      with_suffix_examples rewrite_file_def read_text_def write_text_def
      find_token_examples pattern_sub_examples)
  have 2: "has_placeholder one_source [''a.txt'']
   \<and> snd (snd (rewrite_files opening_interp True widgets [[''a.txt'']] no_console one_source))
         [''a.bkp'']
       = Some (Text [])
   \<and> snd (snd (rewrite_files opening_interp True widgets [[''a.txt'']] no_console one_source))
         [''a.bkp'']
       \<noteq> one_source [''a.txt'']"
    by (simp add: has_placeholder_def one_source_def suffix_examples
      with_suffix_examples rewrite_file_def read_text_def write_text_def
      write_snippet_def snippet_sub[unfolded write_snippet_def, simplified])
  from 1 2 show ?thesis by blast
qed

text \<open>
  C6, amended: with backups enabled, take an entry \<open>f\<close> that the loop reaches without
  an exception before it, does not skip, and reads at that moment as the text \<open>c\<close>,
  and suppose that substituting the placeholders of \<open>f\<close> and of the scanned entries
  after it writes no file. If \<open>c\<close> holds a placeholder, the path \<open>b\<close> of \<open>f\<close>
  with its suffix replaced by \<^verbatim>\<open>.bkp\<close> is not a directory, and no later entry that is
  scanned and holds a placeholder has the same backup path, then at the end of the
  run, however it ends, \<open>b\<close> holds exactly \<open>c\<close>. If \<open>c\<close> holds no placeholder,
  scanning \<open>f\<close> changes neither the files nor the console.
\<close>

theorem backups_written:
  assumes "rewrite_files I True md (pre @ f # post) w fs = (r, w', fs')"
    and "rewrite_files I True md pre w fs = (None, w0, fs0)"
    and "scanned f" and "fs0 f = Some (Text c)"
    and "\<forall>g \<in> set (f # post). scanned g \<longrightarrow> (\<forall>t. fs0 g = Some (Text t) \<longrightarrow> quiet_sub I md t)"
  shows "(find_token c \<noteq> None \<longrightarrow>
           (\<forall>b. with_suffix f ''.bkp'' = Inr b \<and> fs0 b \<noteq> Some Dir
                \<and> (\<forall>g \<in> set post. scanned g \<and> has_placeholder fs0 g
                       \<longrightarrow> with_suffix g ''.bkp'' \<noteq> Inr b)
              \<longrightarrow> fs' b = Some (Text c)))
       \<and> (find_token c = None \<longrightarrow> rewrite_file I True md f w0 fs0 = (None, w0, fs0))"
proof -
  have none: "rewrite_file I True md f w0 fs0 = (None, w0, fs0)" if "find_token c = None"
    using rewrite_file_no_placeholder[of fs0 f c I True md w0] assms(4) that by simp
  have some: "fs' b = Some (Text c)"
    if t: "find_token c \<noteq> None" and b: "with_suffix f ''.bkp'' = Inr b"
      and d: "fs0 b \<noteq> Some Dir"
      and o: "\<forall>g \<in> set post. scanned g \<and> has_placeholder fs0 g \<longrightarrow> with_suffix g ''.bkp'' \<noteq> Inr b"
    for b
  proof -
    obtain r1 w1 fs1 where s: "rewrite_file I True md f w0 fs0 = (r1, w1, fs1)"
      by (cases "rewrite_file I True md f w0 fs0") auto
    have qc: "quiet_sub I md c" using assms(3,4,5) by simp
    have fs1: "fs1 = fs0(b \<mapsto> Text c)"
      using rewrite_file_backup[OF assms(3,4) t b d qc, of w0] s by simp
    then have b1: "fs1 b = Some (Text c)" by simp
    have agree1: "\<forall>q. suffix q \<noteq> ''.bkp'' \<longrightarrow> fs1 q = fs0 q"
      using fs1 suffix_with_suffix[OF b] by auto
    have qp: "\<forall>g \<in> set post. scanned g \<longrightarrow> (\<forall>t. fs0 g = Some (Text t) \<longrightarrow> quiet_sub I md t)"
      using assms(5) by simp
    have run: "rewrite_files I True md (f # post) w0 fs0 = (r, w', fs')"
      using assms(1,2) by (simp add: rewrite_files_append)
    show ?thesis
    proof (cases r1)
      case None
      with run s have "rewrite_files I True md post w1 fs1 = (r, w', fs')" by simp
      from rewrite_files_holds[OF this b1 agree1 o qp] show ?thesis .
    next
      case (Some e)
      with run s have "fs' = fs1" by simp
      with b1 show ?thesis by simp
    qed
  qed
  from none some show ?thesis by blast
qed

theorem backups_written_witness:
  "scanned [''a.txt''] \<and> three_sources [''a.txt''] = Some (Text ''<$package$>'')
   \<and> find_token ''<$package$>'' \<noteq> None
   \<and> with_suffix [''a.txt''] ''.bkp'' = Inr [''a.bkp'']
   \<and> three_sources [''a.bkp''] \<noteq> Some Dir
   \<and> with_suffix [''b.py''] ''.bkp'' \<noteq> Inr [''a.bkp'']
   \<and> \<not> has_placeholder three_sources [''c.txt'']
   \<and> snd (snd (rewrite_files bare_interp True widgets [[''a.txt''], [''b.py''], [''c.txt'']]
                 no_console three_sources)) [''a.bkp'']
       = Some (Text ''<$package$>'')
   \<and> scanned [''c.txt''] \<and> three_sources [''c.txt''] = Some (Text ''plain'')
   \<and> find_token ''plain'' = None
   \<and> rewrite_file bare_interp True widgets [''c.txt''] no_console three_sources
       = (None, no_console, three_sources)"
proof -
  let ?run = "rewrite_files bare_interp True widgets ([] @ [''a.txt''] # [[''b.py''], [''c.txt'']])
                 no_console three_sources"
  have r: "?run = (fst ?run, fst (snd ?run), snd (snd ?run))" by simp
  have p: "rewrite_files bare_interp True widgets [] no_console three_sources
             = (None, no_console, three_sources)" by simp
  have sa: "scanned [''a.txt'']" and sc: "scanned [''c.txt'']"
    by (simp_all add: scanned_def suffix_examples)
  have fa: "three_sources [''a.txt''] = Some (Text ''<$package$>'')"
    and fc: "three_sources [''c.txt''] = Some (Text ''plain'')"
    and nd: "three_sources [''a.bkp''] \<noteq> Some Dir"
    by (simp_all add: three_sources_def)
  have o: "\<forall>g \<in> set [[''b.py''], [''c.txt'']]. scanned g \<and> has_placeholder three_sources g
         \<longrightarrow> with_suffix g ''.bkp'' \<noteq> Inr [''a.bkp'']"
    by (simp add: with_suffix_examples has_placeholder_def three_sources_def find_token_examples)
  have q: "\<forall>g \<in> set ([''a.txt''] # [[''b.py''], [''c.txt'']]). scanned g \<longrightarrow>
             (\<forall>t. three_sources g = Some (Text t) \<longrightarrow> quiet_sub bare_interp widgets t)"
    and q2: "\<forall>g \<in> set ([''c.txt''] # []). scanned g \<longrightarrow>
             (\<forall>t. three_sources g = Some (Text t) \<longrightarrow> quiet_sub bare_interp widgets t)"
    using pure_quiet[OF bare_pure] by blast+
  let ?run2 = "rewrite_files bare_interp True widgets ([] @ [''c.txt''] # [])
                 no_console three_sources"
  have r2: "?run2 = (fst ?run2, fst (snd ?run2), snd (snd ?run2))" by simp
  show ?thesis
    using backups_written[OF r p sa fa q] backups_written[OF r2 p sc fc q2]
      sa sc fa fc nd o with_suffix_examples(1) find_token_examples(1,4)
    by (simp add: with_suffix_examples has_placeholder_def)
qed

subsection \<open>The confirmation\<close>

lemma make_first_option:
  assumes "options self \<noteq> []"
  shows "make I self nm \<lparr>stdin = ''0'' # rest, stdout = out\<rparr>
     = (Inr (VOption (hd (options self))),
        \<lparr>stdin = rest, stdout = out @ [py_join [CHR 0x0A] (menu I self nm) @ [CHR 0x0A]]\<rparr>)"
proof -
  have "py_int I ''0'' = Some 0"
    by (simp add: py_int_def too_many_digits_def int_strip_def is_int_space_def digits_def
        is_digit_def digit_val_def)
  then show ?thesis
    using assms
    by (subst make.simps) (simp add: input_def py_index_def hd_conv_nth)
qed

lemma make_custom_accepted:
  assumes "custom_option self x = Inr v" and "has_custom_option self"
  shows "make I self nm \<lparr>stdin = ''t'' # x # rest, stdout = out\<rparr>
     = (Inr v,
        \<lparr>stdin = rest,
         stdout = out @ [py_join [CHR 0x0A] (menu I self nm) @ [CHR 0x0A],
                         ''enter custom text:'' @ [CHR 0x0A]]\<rparr>)"
  using assms
  by (subst make.simps) (simp add: input_def py_int_t)

lemma year_text: "show_nat 2026 = ''2026''"
  by code_simp

lemma probed:
  "probe quiet_env decisions =
    [(''package'', add_option (mk_ConstResolver [] (Some package_pattern))
                     (DecisionOption ''folder_name'' (VStr ''widgets''))),
     (''authors'', mk_AuthorsResolver),
     (''year'', add_option (mk_ConstResolver [] (Some year_pattern))
                  (DecisionOption ''current year'' (VStr ''2026''))),
     (''repo_link'', mk_ConstResolver [] (Some any_pattern)),
     (''license'', mk_ConstResolver license_options (Some any_pattern)),
     (''py_versions'', mk_ConstResolver py_version_options (Some any_pattern)),
     (''os_platforms'', mk_ConstResolver platform_options (Some any_pattern)),
     (''inital_version'', mk_ConstResolver initial_version_options (Some any_pattern))]"
  by (simp add: probe_def quiet_env_def decisions_def add_to_def run_and_get_def nonempty_def
      splitlines_def project_root_def path_name_def year_text Let_def)

lemma accepted_texts:
  "fullmatch authors_pattern ''Ann Lee <ann@x.com>''"
  "fullmatch any_pattern ''https://example.org/x''"
  by code_simp+

lemma ann_only: "Authors ''Ann Lee <ann@x.com>'' = VAuthors [''Ann Lee <ann@x.com>'']"
  by code_simp

lemma resolved:
  "fst (resolve_all bare_interp (probe quiet_env decisions) []
          \<lparr>stdin = answers @ rest, stdout = []\<rparr>) = Inr chosen
   \<and> stdin (snd (resolve_all bare_interp (probe quiet_env decisions) []
          \<lparr>stdin = answers @ rest, stdout = []\<rparr>)) = rest"
  unfolding probed answers_def
  by (simp add: make_first_option make_custom_accepted add_option_def mk_ConstResolver_def
      mk_AuthorsResolver_def custom_option_def regex_custom_option_def accepted_texts ann_only
      has_custom_option_def dict_set_def chosen_def
      license_options_def py_version_options_def platform_options_def
      initial_version_options_def)

text \<open>
  C5: when every decision has been resolved and the line read at the confirmation is
  not empty, \<^verbatim>\<open>main\<close> ends with \<^verbatim>\<open>SystemExit(1)\<close>, so with a non-zero exit status,
  and the files are those it started with; when the line is empty, \<^verbatim>\<open>main\<close> goes on
  with the rewrite pass and the package directory on those files.
\<close>

theorem decline_changes_nothing:
  assumes "resolve_all I (probe E decisions) [] w = (Inr md, w1)"
    and "stdin w1 = response # rest"
  shows "(response \<noteq> [] \<longrightarrow>
            main I a E entries w fs
              = (Some (SystemExit 1), snd (input [] (confirmation_shown I md w1)), fs)
            \<and> exit_status (fst (main I a E entries w fs)) \<noteq> 0)
       \<and> (response = [] \<longrightarrow>
            main I a E entries w fs
              = fill I a md entries (snd (input [] (confirmation_shown I md w1))) fs)"
  using assms
  by (simp add: main_def input_def confirmation_shown_def print_def)

theorem decline_changes_nothing_witness:
  "fst (resolve_all bare_interp (probe quiet_env decisions) []
          \<lparr>stdin = answers @ [''no''], stdout = []\<rparr>) = Inr chosen
   \<and> stdin (snd (resolve_all bare_interp (probe quiet_env decisions) []
          \<lparr>stdin = answers @ [''no''], stdout = []\<rparr>)) = [''no'']
   \<and> fst (main bare_interp \<lparr>del_script = False, backup = True\<rparr> quiet_env
            [[''a.txt''], [''a.py'']] \<lparr>stdin = answers @ [''no''], stdout = []\<rparr> two_sources)
       = Some (SystemExit 1)
   \<and> snd (snd (main bare_interp \<lparr>del_script = False, backup = True\<rparr> quiet_env
            [[''a.txt''], [''a.py'']] \<lparr>stdin = answers @ [''no''], stdout = []\<rparr> two_sources))
       = two_sources
   \<and> exit_status (fst (main bare_interp \<lparr>del_script = False, backup = True\<rparr> quiet_env
            [[''a.txt''], [''a.py'']] \<lparr>stdin = answers @ [''no''], stdout = []\<rparr> two_sources))
       \<noteq> 0
   \<and> stdin (snd (resolve_all bare_interp (probe quiet_env decisions) []
          \<lparr>stdin = answers @ [[]], stdout = []\<rparr>)) = [[]]
   \<and> main bare_interp \<lparr>del_script = False, backup = True\<rparr> quiet_env
            [[''a.txt''], [''a.py'']] \<lparr>stdin = answers @ [[]], stdout = []\<rparr> two_sources
       = fill bare_interp \<lparr>del_script = False, backup = True\<rparr> chosen [[''a.txt''], [''a.py'']]
           (snd (input [] (confirmation_shown bare_interp chosen
              (snd (resolve_all bare_interp (probe quiet_env decisions) []
                      \<lparr>stdin = answers @ [[]], stdout = []\<rparr>)))))
           two_sources"
proof -
  let ?no = "resolve_all bare_interp (probe quiet_env decisions) []
          \<lparr>stdin = answers @ [''no''], stdout = []\<rparr>"
  let ?yes = "resolve_all bare_interp (probe quiet_env decisions) []
          \<lparr>stdin = answers @ [[]], stdout = []\<rparr>"
  have n1: "?no = (Inr chosen, snd ?no)" and n2: "stdin (snd ?no) = ''no'' # []"
    using resolved[of "[''no'']"] by (simp_all add: prod_eq_iff)
  have y1: "?yes = (Inr chosen, snd ?yes)" and y2: "stdin (snd ?yes) = [] # []"
    using resolved[of "[[]]"] by (simp_all add: prod_eq_iff)
  note no = decline_changes_nothing[OF n1 n2, of "\<lparr>del_script = False, backup = True\<rparr>"
        "[[''a.txt''], [''a.py'']]" two_sources]
  note yes = decline_changes_nothing[OF y1 y2, of "\<lparr>del_script = False, backup = True\<rparr>"
        "[[''a.txt''], [''a.py'']]" two_sources]
  from no have m: "main bare_interp \<lparr>del_script = False, backup = True\<rparr> quiet_env
            [[''a.txt''], [''a.py'']] \<lparr>stdin = answers @ [''no''], stdout = []\<rparr> two_sources
          = (Some (SystemExit 1),
             snd (input [] (confirmation_shown bare_interp chosen (snd ?no))), two_sources)"
    by simp
  from yes have f: "main bare_interp \<lparr>del_script = False, backup = True\<rparr> quiet_env
            [[''a.txt''], [''a.py'']] \<lparr>stdin = answers @ [[]], stdout = []\<rparr> two_sources
       = fill bare_interp \<lparr>del_script = False, backup = True\<rparr> chosen [[''a.txt''], [''a.py'']]
           (snd (input [] (confirmation_shown bare_interp chosen (snd ?yes)))) two_sources"
    by simp
  have r: "fst ?no = Inr chosen" using resolved[of "[''no'']"] by simp
  show ?thesis
    unfolding m f using r n2 y2 by simp
qed

end
